theory Spec2Isabelle
  imports Complex_Main
begin

section \<open>Pre-processing of fluorescence movies: noise level and time constants\<close>

text \<open>
  A shallow embedding of \<^verbatim>\<open>ca_source_extraction/pre_processing.py\<close>.
  Array entries are exact reals: rounding, the float32 cast of the shared result buffer
  and overflow are not modelled. What the IEEE special values do in the source
  (\<^verbatim>\<open>log(0) = -inf\<close>, the mean of an empty slice is \<^verbatim>\<open>nan\<close>) is modelled, since NumPy
  only warns there and goes on. Python exceptions are values of the type \<open>error\<close>.
\<close>

subsection \<open>Exceptions and floating values\<close>

datatype error =
    Exception string
  | NameError string
  | ZeroDivisionError
  | IndexError
  | ValueError
  | TypeError

text \<open>Sequencing of calls that may raise: the first exception ends the computation.\<close>

definition and_then :: "error + 'a \<Rightarrow> ('a \<Rightarrow> error + 'b) \<Rightarrow> error + 'b" where
  "and_then m f = (case m of Inl e \<Rightarrow> Inl e | Inr v \<Rightarrow> f v)"

fun mapM :: "('a \<Rightarrow> error + 'b) \<Rightarrow> 'a list \<Rightarrow> error + 'b list" where
  "mapM f [] = Inr []"
| "mapM f (x # xs) = and_then (f x) (\<lambda>y. and_then (mapM f xs) (\<lambda>ys. Inr (y # ys)))"

text \<open>A float as NumPy's elementwise functions return it: a real number or a special value.\<close>

datatype fval = Fin real | PInf | NInf | NaN

fun fadd :: "fval \<Rightarrow> fval \<Rightarrow> fval" where
  "fadd NaN _ = NaN"
| "fadd _ NaN = NaN"
| "fadd (Fin a) (Fin b) = Fin (a + b)"
| "fadd PInf NInf = NaN"
| "fadd NInf PInf = NaN"
| "fadd PInf _ = PInf"
| "fadd _ PInf = PInf"
| "fadd NInf _ = NInf"
| "fadd _ NInf = NInf"

definition fsum :: "fval list \<Rightarrow> fval" where
  "fsum xs = foldr fadd xs (Fin 0)"

text \<open>\<^verbatim>\<open>np.mean\<close> along the last axis: the sum over the count; \<^verbatim>\<open>0.0/0\<close> is \<^verbatim>\<open>nan\<close>.\<close>

definition np_mean :: "fval list \<Rightarrow> fval" where
  "np_mean xs =
     (if xs = [] then NaN
      else case fsum xs of Fin s \<Rightarrow> Fin (s / real (length xs)) | v \<Rightarrow> v)"

text \<open>\<^verbatim>\<open>np.median\<close> along the last axis, on finite entries.\<close>

definition np_median :: "real list \<Rightarrow> fval" where
  "np_median xs =
     (let n = length xs; s = sort xs in
      if n = 0 then NaN
      else if odd n then Fin (s ! (n div 2))
      else Fin ((s ! (n div 2 - 1) + s ! (n div 2)) / 2))"

definition np_log :: "real \<Rightarrow> fval" where
  "np_log x = (if 0 < x then Fin (ln x) else if x = 0 then NInf else NaN)"

fun np_exp :: "fval \<Rightarrow> fval" where
  "np_exp (Fin x) = Fin (exp x)"
| "np_exp PInf = PInf"
| "np_exp NInf = Fin 0"
| "np_exp NaN = NaN"

fun np_sqrt :: "fval \<Rightarrow> fval" where
  "np_sqrt (Fin x) = (if 0 \<le> x then Fin (sqrt x) else NaN)"
| "np_sqrt PInf = PInf"
| "np_sqrt NInf = NaN"
| "np_sqrt NaN = NaN"

subsection \<open>Spectral averager: \<^verbatim>\<open>mean_psd\<close>\<close>

text \<open>
  \<open>y\<close> holds one row of power values per pixel; the last axis is reduced, so the result has
  one entry per row. The source dispatches on the method string with
  \<^verbatim>\<open>if method == 'mean' ... elif method == 'median' ... else\<close>.
\<close>

definition mean_psd :: "real list list \<Rightarrow> string \<Rightarrow> fval list" where
  "mean_psd y method =
     (if method = ''mean'' then
        map (\<lambda>r. np_sqrt (np_mean (map (\<lambda>v. Fin (v / 2)) r))) y
      else if method = ''median'' then
        map (\<lambda>r. np_sqrt (np_median (map (\<lambda>v. v / 2) r))) y
      else
        map (\<lambda>r. np_sqrt (np_exp (np_mean (map (\<lambda>v. np_log (v / 2)) r)))) y)"


subsection \<open>Noise estimator: \<^verbatim>\<open>get_noise_fft\<close>\<close>

text \<open>
  An array of one or two dimensions. \<open>Array2 T rows\<close> has shape \<open>(length rows, T)\<close>: every
  row has \<open>T\<close> entries (see \<open>wf_array\<close>); the column count is kept so that an array
  without rows still has its shape.
\<close>

datatype ndarray = Array1 "real list" | Array2 nat "real list list"

fun wf_array :: "ndarray \<Rightarrow> bool" where
  "wf_array (Array1 xs) = True"
| "wf_array (Array2 T rows) = list_all (\<lambda>r. length r = T) rows"

fun shape_last :: "ndarray \<Rightarrow> nat" where
  "shape_last (Array1 xs) = length xs"
| "shape_last (Array2 T rows) = T"

fun shape0 :: "ndarray \<Rightarrow> nat" where
  "shape0 (Array1 xs) = length xs"
| "shape0 (Array2 T rows) = length rows"

text \<open>\<^verbatim>\<open>np.arange(start, stop, step)\<close> for a positive step: \<open>ceil((stop - start)/step)\<close> values.\<close>

definition np_arange :: "real \<Rightarrow> real \<Rightarrow> real \<Rightarrow> real list" where
  "np_arange start stop step =
     map (\<lambda>i. start + real i * step) [0..<nat \<lceil>(stop - start) / step\<rceil>]"

text \<open>\<^verbatim>\<open>ff = np.arange(0,0.5+1./T,1./T)\<close> and the mask \<^verbatim>\<open>ind\<close> of the source.\<close>

definition freq_grid :: "nat \<Rightarrow> real list" where
  "freq_grid T = np_arange 0 (0.5 + 1 / real T) (1 / real T)"

definition band_mask :: "nat \<Rightarrow> real \<times> real \<Rightarrow> bool list" where
  "band_mask T noise_range =
     (let ff = freq_grid T;
          ind1 = map (\<lambda>f. f > fst noise_range) ff;
          ind2 = map (\<lambda>f. f \<le> snd noise_range) ff
      in map2 (\<and>) ind1 ind2)"

text \<open>
  \<^verbatim>\<open>np.fft.rfft\<close> of a real row of length \<open>T\<close>: the bins \<open>0 .. T div 2\<close> of the discrete
  Fourier transform.
\<close>

definition dft_bin :: "real list \<Rightarrow> nat \<Rightarrow> complex" where
  "dft_bin x k =
     (\<Sum>t<length x. of_real (x ! t) * cis (- (2 * pi * real k * real t / real (length x))))"

definition rfft :: "real list \<Rightarrow> complex list" where
  "rfft x = map (dft_bin x) [0..<length x div 2 + 1]"

text \<open>
  \<^verbatim>\<open>psdx = (1./T)*abs(xdft)**2\<close> followed by \<^verbatim>\<open>psdx[...,1:] *= 2\<close>, for one row.
\<close>

definition psd_row :: "real list \<Rightarrow> real list" where
  "psd_row x =
     (case map (\<lambda>c. (1 / real (length x)) * (cmod c)\<^sup>2) (rfft x) of
        [] \<Rightarrow> []
      | p0 # rest \<Rightarrow> p0 # map (\<lambda>v. v * 2) rest)"

text \<open>
  Indexing the last axis (of length \<open>n\<close>) with a boolean mask, \<^verbatim>\<open>psdx[...,ind]\<close>: the
  positions where the mask is True are taken. The mask of the source can be one longer than
  the axis (odd \<open>T\<close>); the NumPy this Python 2 module ran on accepts that as long as every
  True position lies on the axis, and raises IndexError otherwise.
\<close>

definition mask_select :: "bool list \<Rightarrow> nat \<Rightarrow> error + nat list" where
  "mask_select ind n =
     (let idx = filter (\<lambda>i. ind ! i) [0..<length ind]
      in if list_all (\<lambda>i. i < n) idx then Inr idx else Inl IndexError)"

text \<open>
  The names the module binds at top level: its imports (\<^verbatim>\<open>import numpy as np\<close>,
  \<^verbatim>\<open>from scipy.interpolate import griddata\<close>, \<^verbatim>\<open>import tempfile\<close>, \<^verbatim>\<open>import os\<close>,
  \<^verbatim>\<open>from joblib import Parallel,delayed\<close>, \<^verbatim>\<open>import shutil\<close>) and its functions. A
  function body that reads any other name that is not a builtin raises NameError there.
\<close>

definition module_names :: "string list" where
  "module_names =
     [''np'', ''griddata'', ''tempfile'', ''os'', ''Parallel'', ''delayed'', ''shutil'',
      ''interpolate_missing_data'', ''find_unsaturated_pixels'', ''get_noise_fft'',
      ''get_noise_fft_parallel'', ''fft_psd_parallel'', ''mean_psd'',
      ''estimate_time_constant'', ''axcov'', ''nextpow2'', ''preprocess_data'']"

definition global_name :: "string \<Rightarrow> error + unit" where
  "global_name n = (if n \<in> set module_names then Inr () else Inl (NameError n))"

text \<open>
  \<^verbatim>\<open>1./T\<close> raises for \<open>T = 0\<close> before either branch. The one-dimensional branch,
  \<^verbatim>\<open>np.fliplr(rfft(Y))\<close>, reads the bare name \<^verbatim>\<open>rfft\<close>; were it bound, \<^verbatim>\<open>np.fliplr\<close>
  would refuse its one-dimensional argument.
\<close>

definition get_noise_fft :: "ndarray \<Rightarrow> real \<times> real \<Rightarrow> string \<Rightarrow> error + fval list" where
  "get_noise_fft Y noise_range noise_method =
     (let T = shape_last Y in
      if T = 0 then Inl ZeroDivisionError
      else
        let ind = band_mask T noise_range in
        case Y of
          Array2 _ rows \<Rightarrow>
            and_then (mask_select ind (T div 2 + 1))
              (\<lambda>idx. Inr (mean_psd (map (\<lambda>r. map (\<lambda>k. psd_row r ! k) idx) rows) noise_method))
        | Array1 _ \<Rightarrow> and_then (global_name ''rfft'') (\<lambda>_. Inl ValueError))"

text \<open>
  The bins the specification says the band selects, written from its words: the bins \<open>k\<close> of
  the grid whose frequency \<open>k/T\<close> lies in \<open>(lo, hi]\<close>.
\<close>

definition band_bins :: "nat \<Rightarrow> real \<times> real \<Rightarrow> nat list" where
  "band_bins T noise_range =
     filter (\<lambda>k. fst noise_range < real k / real T \<and> real k / real T \<le> snd noise_range)
       [0..<(T + 1) div 2 + 1]"

subsection \<open>Parallel noise orchestrator: \<^verbatim>\<open>get_noise_fft_parallel\<close>, \<^verbatim>\<open>fft_psd_parallel\<close>\<close>

text \<open>Python 2's \<^verbatim>\<open>range(start, stop, step)\<close>: a list of integers; a zero step raises.\<close>

definition py_range :: "int \<Rightarrow> int \<Rightarrow> int \<Rightarrow> error + int list" where
  "py_range start stop step =
     (if step = 0 then Inl ValueError
      else if 0 < step then
        Inr (map (\<lambda>j. start + int j * step) [0..<nat ((stop - start + step - 1) div step)])
      else
        Inr (map (\<lambda>j. start + int j * step) [0..<nat ((start - stop - step - 1) div (- step))]))"

text \<open>
  An integer index into an axis of length \<open>n\<close>: negative indices count from the end, anything
  outside \<open>[-n, n)\<close> raises IndexError.
\<close>

definition norm_index :: "nat \<Rightarrow> int \<Rightarrow> error + nat" where
  "norm_index n i =
     (if 0 \<le> i \<and> i < int n then Inr (nat i)
      else if - int n \<le> i \<and> i < 0 then Inr (nat (int n + i))
      else Inl IndexError)"

text \<open>\<^verbatim>\<open>xs[idxs]\<close> and \<^verbatim>\<open>Y[idxs]\<close> with a list of integers: the entries (rows) at these indices.\<close>

definition np_take :: "'a list \<Rightarrow> int list \<Rightarrow> error + 'a list" where
  "np_take xs idxs =
     and_then (mapM (norm_index (length xs)) idxs) (\<lambda>js. Inr (map (\<lambda>j. xs ! j) js))"

fun take_rows :: "ndarray \<Rightarrow> int list \<Rightarrow> error + ndarray" where
  "take_rows (Array1 xs) idxs = and_then (np_take xs idxs) (\<lambda>ys. Inr (Array1 ys))"
| "take_rows (Array2 T rows) idxs = and_then (np_take rows idxs) (\<lambda>rs. Inr (Array2 T rs))"

text \<open>
  The keyword arguments handed on to \<^verbatim>\<open>get_noise_fft\<close>: each may be absent, and then the
  default of the signature \<^verbatim>\<open>noise_range = [0.25,0.5], noise_method = 'logmexp'\<close> applies.
\<close>

record kwargs =
  kw_noise_range :: "(real \<times> real) option"
  kw_noise_method :: "string option"

definition no_kwargs :: kwargs where
  "no_kwargs = \<lparr>kw_noise_range = None, kw_noise_method = None\<rparr>"

definition get_noise_fft_kw :: "ndarray \<Rightarrow> kwargs \<Rightarrow> error + fval list" where
  "get_noise_fft_kw Y kw =
     get_noise_fft Y
       (case kw_noise_range kw of None \<Rightarrow> (0.25, 0.5) | Some r \<Rightarrow> r)
       (case kw_noise_method kw of None \<Rightarrow> ''logmexp'' | Some m \<Rightarrow> m)"

text \<open>
  The shared result buffer \<^verbatim>\<open>sn_s\<close>. \<open>cells\<close> is its content; \<open>writes\<close> records, in order,
  every cell index an assignment \<^verbatim>\<open>sn_s[idxs]=res\<close> has written, so that "written exactly
  once" can be stated.
\<close>

record memmap =
  cells :: "fval list"
  writes :: "nat list"

text \<open>
  \<^verbatim>\<open>sn_s[idxs]=res\<close>: one value per index; a single value is broadcast; any other length
  is a shape mismatch.
\<close>

definition assign_cells :: "memmap \<Rightarrow> int list \<Rightarrow> fval list \<Rightarrow> error + memmap" where
  "assign_cells sn_s idxs res =
     and_then (mapM (norm_index (length (cells sn_s))) idxs) (\<lambda>js.
       if length res = length js then
         Inr \<lparr>cells = fold (\<lambda>(j, v) c. c[j := v]) (zip js res) (cells sn_s),
              writes = writes sn_s @ js\<rparr>
       else if length res = 1 then
         Inr \<lparr>cells = fold (\<lambda>j c. c[j := hd res]) js (cells sn_s),
              writes = writes sn_s @ js\<rparr>
       else Inl ValueError)"

definition fft_psd_parallel ::
  "ndarray \<Rightarrow> memmap \<Rightarrow> int \<Rightarrow> int \<Rightarrow> kwargs \<Rightarrow> error + memmap" where
  "fft_psd_parallel Y sn_s i num_pixels kw =
     and_then (py_range i (i + num_pixels) 1) (\<lambda>idxs.
     and_then (take_rows Y idxs) (\<lambda>Yi.
     and_then (get_noise_fft_kw Yi kw) (\<lambda>res.
     assign_cells sn_s idxs res)))"

text \<open>
  The calls \<^verbatim>\<open>Parallel(n_jobs=n_processes, backend=backend)(delayed(fft_psd_parallel)(Y,
  sn_s, i, n_pixels_per_process, **kwargs) for i in pixel_groups)\<close>. joblib refuses
  \<^verbatim>\<open>n_jobs = 0\<close> with ValueError; otherwise it runs every call to completion before it
  returns and re-raises an exception of a call, and the number of workers and the backend
  decide only when a call runs. The model runs the calls in the order of
  \<^verbatim>\<open>pixel_groups\<close>; the calls write disjoint cells, as is proved below.
\<close>

fun run_groups :: "ndarray \<Rightarrow> memmap \<Rightarrow> int list \<Rightarrow> int \<Rightarrow> kwargs \<Rightarrow> error + memmap" where
  "run_groups Y sn_s [] n kw = Inr sn_s"
| "run_groups Y sn_s (i # rest) n kw =
     and_then (fft_psd_parallel Y sn_s i n kw) (\<lambda>s. run_groups Y s rest n kw)"

text \<open>
  The index lists \<^verbatim>\<open>idxs\<close> of the calls of \<^verbatim>\<open>fft_psd_parallel\<close> that the orchestrator
  makes for \<open>N\<close> pixels: one per element of \<^verbatim>\<open>pixel_groups\<close>, then the remainder call when
  \<^verbatim>\<open>Y.shape[0] % n_pixels_per_process > 0\<close>.
\<close>

definition pixel_groups :: "nat \<Rightarrow> int \<Rightarrow> error + int list" where
  "pixel_groups N n_pixels_per_process =
     py_range 0 (int N - n_pixels_per_process + 1) n_pixels_per_process"


text \<open>
  The buffer is a fresh file-backed array, all zero. The remainder call of the source is
  \<^verbatim>\<open>fft_psd_parallel(Y,sn_s,Y.shape[0]-pixels_remaining,pixels_remaining)\<close>: it hands on no
  keyword arguments. The temporary directory and the printed line are not modelled. The
  array the source returns is \<open>cells\<close> of the result.
\<close>

definition get_noise_fft_parallel ::
  "ndarray \<Rightarrow> int \<Rightarrow> int \<Rightarrow> string \<Rightarrow> kwargs \<Rightarrow> error + memmap" where
  "get_noise_fft_parallel Y n_processes n_pixels_per_process backend kw =
     (let sn_s = \<lparr>cells = replicate (shape0 Y) (Fin 0), writes = []\<rparr> in
      and_then (pixel_groups (shape0 Y) n_pixels_per_process) (\<lambda>groups.
      and_then (if n_processes = 0 then Inl ValueError
                else run_groups Y sn_s groups n_pixels_per_process kw) (\<lambda>s.
        let pixels_remaining = int (shape0 Y) mod n_pixels_per_process in
        if 0 < pixels_remaining then
          fft_psd_parallel Y s (int (shape0 Y) - pixels_remaining) pixels_remaining no_kwargs
        else Inr s)))"

subsection \<open>Autocovariance engine: \<^verbatim>\<open>nextpow2\<close>, \<^verbatim>\<open>axcov\<close>\<close>

text \<open>The loop \<^verbatim>\<open>while avalue > np.power(2, exponent): exponent += 1\<close>.\<close>

function nextpow2_loop :: "int \<Rightarrow> nat \<Rightarrow> nat" where
  "nextpow2_loop avalue exponent =
     (if avalue > 2 ^ exponent then nextpow2_loop avalue (exponent + 1) else exponent)"
  by pat_completeness auto
termination
  by (relation "measure (\<lambda>(a, e). nat (a - 2 ^ e))") auto

definition nextpow2 :: "int \<Rightarrow> nat" where
  "nextpow2 v = nextpow2_loop \<bar>v\<bar> 0"

text \<open>
  \<^verbatim>\<open>numpy.fft.fft(a, n)\<close> (the input cropped or zero-padded to length \<open>n\<close>) and
  \<^verbatim>\<open>numpy.fft.ifft\<close>, the transforms the names \<^verbatim>\<open>fft\<close> and \<^verbatim>\<open>ifft\<close> stand for.
\<close>

definition np_fft :: "complex list \<Rightarrow> nat \<Rightarrow> complex list" where
  "np_fft a n =
     (let x = take n a @ replicate (n - length a) 0
      in map (\<lambda>k. \<Sum>t<n. x ! t * cis (- (2 * pi * real k * real t / real n))) [0..<n])"

definition np_ifft :: "complex list \<Rightarrow> complex list" where
  "np_ifft X =
     (let n = length X
      in map (\<lambda>m. (\<Sum>k<n. X ! k * cis (2 * pi * real k * real m / real n)) / of_nat n) [0..<n])"

text \<open>
  Lines 337 to 342 of \<^verbatim>\<open>axcov\<close>, as they run once \<^verbatim>\<open>fft\<close> and \<^verbatim>\<open>ifft\<close> are bound to
  NumPy's transforms. \<open>data\<close> is the de-meaned trace and \<open>T\<close> its length; the final
  \<^verbatim>\<open>xcov/T\<close> is \<^verbatim>\<open>nan\<close> for an empty trace (all of \<open>xcov\<close> is zero then).
\<close>

definition axcov_bound :: "real list \<Rightarrow> int \<Rightarrow> error + fval list" where
  "axcov_bound data maxlag =
     (let T = length data;
          bins = length data;
          xcov = np_fft (map complex_of_real data) (2 ^ nextpow2 (2 * int bins - 1));
          xcov = np_ifft (map (\<lambda>c. complex_of_real ((cmod c)\<^sup>2)) xcov);
          size = int (length xcov)
      in and_then (py_range (size - maxlag) size 1) (\<lambda>neg.
         and_then (np_take xcov neg) (\<lambda>tail.
         and_then (py_range 0 (maxlag + 1) 1) (\<lambda>pos.
         and_then (np_take xcov pos) (\<lambda>head.
           Inr (map (\<lambda>c. if T = 0 then NaN else Fin (Re (c / of_nat T))) (tail @ head)))))))"

text \<open>
  \<^verbatim>\<open>axcov\<close> itself: the trace is de-meaned, then line 337 reads the name \<^verbatim>\<open>fft\<close>.
\<close>

definition axcov :: "real list \<Rightarrow> int \<Rightarrow> error + fval list" where
  "axcov data maxlag =
     (let data = map (\<lambda>v. v - sum_list data / real (length data)) data
      in and_then (global_name ''fft'') (\<lambda>_.
         and_then (global_name ''ifft'') (\<lambda>_. axcov_bound data maxlag)))"

subsection \<open>Time-constant fitter: \<^verbatim>\<open>estimate_time_constant\<close>\<close>

fun fneg :: "fval \<Rightarrow> fval" where
  "fneg (Fin a) = Fin (- a)"
| "fneg PInf = NInf"
| "fneg NInf = PInf"
| "fneg NaN = NaN"

fun fmul :: "fval \<Rightarrow> fval \<Rightarrow> fval" where
  "fmul NaN _ = NaN"
| "fmul _ NaN = NaN"
| "fmul (Fin a) (Fin b) = Fin (a * b)"
| "fmul (Fin a) PInf = (if a = 0 then NaN else if 0 < a then PInf else NInf)"
| "fmul (Fin a) NInf = (if a = 0 then NaN else if 0 < a then NInf else PInf)"
| "fmul PInf (Fin b) = (if b = 0 then NaN else if 0 < b then PInf else NInf)"
| "fmul NInf (Fin b) = (if b = 0 then NaN else if 0 < b then NInf else PInf)"
| "fmul PInf PInf = PInf"
| "fmul NInf NInf = PInf"
| "fmul PInf NInf = NInf"
| "fmul NInf PInf = NInf"

text \<open>A matrix of floats: its column count and its rows.\<close>

type_synonym fmatrix = "nat \<times> fval list list"

text \<open>\<^verbatim>\<open>scipy.linalg.toeplitz(c, r)\<close>: first column \<open>c\<close>, first row \<open>r\<close> (whose first entry is ignored).\<close>

definition toeplitz :: "'a list \<Rightarrow> 'a list \<Rightarrow> 'a list list" where
  "toeplitz c r =
     map (\<lambda>a. map (\<lambda>b. if b \<le> a then c ! (a - b) else r ! (b - a)) [0..<length r])
       [0..<length c]"

text \<open>\<^verbatim>\<open>np.eye(n, m)\<close> scaled by \<open>s\<close>.\<close>

definition scaled_eye :: "fval \<Rightarrow> nat \<Rightarrow> nat \<Rightarrow> fval list list" where
  "scaled_eye s n m =
     map (\<lambda>a. map (\<lambda>b. fmul s (Fin (if a = b then 1 else 0))) [0..<m]) [0..<n]"

definition np_dot :: "fmatrix \<Rightarrow> fval list \<Rightarrow> error + fval list" where
  "np_dot M v =
     (if fst M = length v then Inr (map (\<lambda>r. fsum (map2 fmul r v)) (snd M))
      else Inl ValueError)"

fun np_size :: "ndarray \<Rightarrow> nat" where
  "np_size (Array1 xs) = length xs"
| "np_size (Array2 T rows) = length rows * T"

text \<open>\<^verbatim>\<open>np.arange(np.size(Y)/np.shape(Y)[-1])\<close>, an integer division of Python 2.\<close>

definition default_pixels :: "ndarray \<Rightarrow> error + int list" where
  "default_pixels Y =
     (if shape_last Y = 0 then Inl ZeroDivisionError
      else py_range 0 (int (np_size Y) div int (shape_last Y)) 1)"

text \<open>\<^verbatim>\<open>Y[pixels[j],:]\<close>: two indices need a two-dimensional array.\<close>

fun pixel_trace :: "ndarray \<Rightarrow> int \<Rightarrow> error + real list" where
  "pixel_trace (Array1 xs) j = Inl IndexError"
| "pixel_trace (Array2 T rows) j = and_then (norm_index (length rows) j) (\<lambda>i. Inr (rows ! i))"

text \<open>
  One pass of the first loop, \<^verbatim>\<open>XC[j,:] = np.squeeze(axcov(np.squeeze(Y[pixels[j],:]),lags))\<close>.
  Squeezing a trace of a single sample leaves an array without dimensions, on which
  \<^verbatim>\<open>len(data)\<close> in \<^verbatim>\<open>axcov\<close> raises TypeError. The row of \<^verbatim>\<open>XC\<close> has \<open>2*lags+1\<close> entries.
\<close>

definition xc_row :: "ndarray \<Rightarrow> int \<Rightarrow> int \<Rightarrow> error + fval list" where
  "xc_row Y lags j =
     and_then (pixel_trace Y j) (\<lambda>row.
       if length row = 1 then Inl TypeError
       else and_then (axcov row lags) (\<lambda>r.
         if length r = nat (2 * lags + 1) then Inr r
         else if length r = 1 then Inr (replicate (nat (2 * lags + 1)) (hd r))
         else Inl ValueError))"

text \<open>\<^verbatim>\<open>XC[:,idxs]\<close> on a matrix with \<open>n\<close> columns.\<close>

definition take_cols :: "nat \<Rightarrow> 'a list list \<Rightarrow> int list \<Rightarrow> error + 'a list list" where
  "take_cols n XC idxs =
     and_then (mapM (norm_index n) idxs) (\<lambda>js. Inr (map (\<lambda>r. map (\<lambda>j. r ! j) js) XC))"

text \<open>
  The block of \<^verbatim>\<open>A\<close> for one pixel when the noise is left out:
  \<^verbatim>\<open>toeplitz(XC[i,np.arange(p-1,p+lags-1)], XC[i,np.arange(p-1,-1,-1)])\<close>.
\<close>

definition block_excl :: "int \<Rightarrow> int \<Rightarrow> fval list \<Rightarrow> error + fval list list" where
  "block_excl p lags xc =
     and_then (py_range (p - 1) (p + lags - 1) 1) (\<lambda>ci.
     and_then (np_take xc ci) (\<lambda>c.
     and_then (py_range (p - 1) (- 1) (- 1)) (\<lambda>ri.
     and_then (np_take xc ri) (\<lambda>r. Inr (toeplitz c r)))))"

text \<open>
  The block of \<^verbatim>\<open>A\<close> and the slice of \<^verbatim>\<open>gv\<close> for pixel \<open>i\<close> when the noise is included:
  \<^verbatim>\<open>toeplitz(XC[i,lags+np.arange(lags)], XC[i,lags+np.arange(p)]) - (sn[i]**2)*np.eye(lags,p)\<close>
  and \<^verbatim>\<open>XC[i,lags+1:]\<close>.
\<close>

definition block_incl ::
  "int \<Rightarrow> int \<Rightarrow> fval list \<Rightarrow> nat \<times> fval list \<Rightarrow> error + fval list list \<times> fval list" where
  "block_incl p lags sn ixc =
     (let i = fst ixc; xc = snd ixc in
      and_then (py_range 0 lags 1) (\<lambda>al.
      and_then (np_take xc (map (\<lambda>a. lags + a) al)) (\<lambda>c.
      and_then (py_range 0 p 1) (\<lambda>ap.
      and_then (np_take xc (map (\<lambda>a. lags + a) ap)) (\<lambda>r.
      and_then (np_take sn [int i]) (\<lambda>s.
        Inr (map2 (map2 (\<lambda>u v. fadd u (fneg v)))
               (toeplitz c r) (scaled_eye (fmul (hd s) (hd s)) (nat lags) (nat p)),
             drop (nat (lags + 1)) xc)))))))"

text \<open>
  The fitter. \<^verbatim>\<open>np.linalg.pinv\<close> is a parameter. The first statement is the check of
  \<^verbatim>\<open>p\<close>; \<^verbatim>\<open>np.zeros\<close> raises ValueError on a negative dimension.
\<close>

definition estimate_time_constant ::
  "(fmatrix \<Rightarrow> error + fmatrix) \<Rightarrow> ndarray \<Rightarrow> fval list \<Rightarrow> int option \<Rightarrow> int \<Rightarrow> bool \<Rightarrow>
   int list option \<Rightarrow> error + fval list" where
  "estimate_time_constant pinv Y sn p lags include_noise pixels =
     (case p of
        None \<Rightarrow> Inl (Exception ''You need to define p'')
      | Some p \<Rightarrow>
          and_then (case pixels of None \<Rightarrow> default_pixels Y | Some px \<Rightarrow> Inr px) (\<lambda>pixels.
            let npx = int (length pixels); lags = lags + p in
            if 2 * lags + 1 < 0 then Inl ValueError
            else
              and_then (mapM (xc_row Y lags) pixels) (\<lambda>XC.
                if \<not> include_noise then
                  and_then (py_range (lags - 1) (- 1) (- 1)) (\<lambda>rev.
                  and_then (take_cols (nat (2 * lags + 1)) XC rev) (\<lambda>XC.
                    let lags = lags - p in
                    if npx * lags < 0 \<or> p < 0 then Inl ValueError
                    else
                      and_then (mapM (block_excl p lags) XC) (\<lambda>blocks.
                        let A = (nat p, concat blocks);
                            gv = concat (map (drop (nat p)) XC)
                        in and_then (pinv A) (\<lambda>Ap. np_dot Ap gv))))
                else if npx * lags < 0 \<or> p < 0 then Inl ValueError
                else
                  and_then (mapM (block_incl p lags sn) (zip [0..<length pixels] XC)) (\<lambda>bs.
                    let A = (nat p, concat (map fst bs));
                        gv = concat (map snd bs)
                    in and_then (pinv A) (\<lambda>Ap. np_dot Ap gv)))))"

section \<open>Properties\<close>

subsection \<open>The frequency grid and the band mask\<close>

lemma ceil_half: "nat \<lceil>(0.5 + 1 / real T) / (1 / real T)\<rceil> = (T + 1) div 2 + 1" if "0 < T"
proof -
  have e: "(0.5 + 1 / real T) / (1 / real T) = real T / 2 + 1"
    using that by (simp add: field_simps)
  show ?thesis
  proof (cases "even T")
    case True
    then obtain m where m: "T = 2 * m" by (auto elim: evenE)
    have "real T / 2 + 1 = real (m + 1)" by (simp add: m)
    then have "\<lceil>real T / 2 + 1\<rceil> = int (m + 1)" by (metis ceiling_of_nat)
    then show ?thesis unfolding e by (simp add: m)
  next
    case False
    then obtain m where m: "T = 2 * m + 1" by (auto elim: oddE)
    have "\<lceil>real T / 2 + 1\<rceil> = int (m + 2)"
      by (rule ceiling_unique) (simp_all add: m field_simps)
    then show ?thesis unfolding e by (simp add: m)
  qed
qed

lemma freq_grid_eq: "0 < T \<Longrightarrow> freq_grid T = map (\<lambda>k. real k / real T) [0..<(T + 1) div 2 + 1]"
  unfolding freq_grid_def np_arange_def by (simp only: ceil_half diff_zero) simp

lemma length_freq_grid: "0 < T \<Longrightarrow> length (freq_grid T) = (T + 1) div 2 + 1"
  by (simp add: freq_grid_eq)

lemma nth_freq_grid: "0 < T \<Longrightarrow> k < (T + 1) div 2 + 1 \<Longrightarrow> freq_grid T ! k = real k / real T"
  by (simp only: freq_grid_eq nth_map length_upt diff_zero nth_upt add_0)

lemma band_mask_eq: "0 < T \<Longrightarrow> band_mask T (lo, hi) = map (\<lambda>k. lo < real k / real T \<and> real k / real T \<le> hi) [0..<(T + 1) div 2 + 1]"
  by (rule nth_equalityI) (simp_all add: band_mask_def Let_def freq_grid_eq del: upt_Suc)

lemma length_band_mask: "0 < T \<Longrightarrow> length (band_mask T r) = (T + 1) div 2 + 1"
  by (cases r) (simp add: band_mask_eq)

lemma filter_nth_map_upt: "filter (\<lambda>i. map P [0..<n] ! i) [0..<n] = filter P [0..<n]"
  by (rule filter_cong) simp_all

lemma mask_idx: "0 < T \<Longrightarrow> filter (\<lambda>i. band_mask T (lo, hi) ! i) [0..<length (band_mask T (lo, hi))] = band_bins T (lo, hi)"
  by (simp only: length_band_mask) (simp only: band_mask_eq filter_nth_map_upt band_bins_def fst_conv snd_conv)

lemma band_bins_on_axis:
  assumes "0 < T" "hi \<le> 1 / 2" "k \<in> set (band_bins T (lo, hi))"
  shows "k < T div 2 + 1"
proof -
  from assms(3) have "real k / real T \<le> hi" by (simp add: band_bins_def del: upt_Suc)
  with assms(2) have "real k / real T \<le> 1 / 2" by linarith
  with assms(1) have "real k * 2 \<le> real T" by (simp add: field_simps)
  then have "k * 2 \<le> T" by (metis of_nat_le_iff of_nat_mult of_nat_numeral)
  then show ?thesis by simp
qed

lemma mask_select_band:
  assumes "0 < T" "hi \<le> 1 / 2"
  shows "mask_select (band_mask T (lo, hi)) (T div 2 + 1) = Inr (band_bins T (lo, hi))"
  using band_bins_on_axis[OF assms] 
  by (simp only: mask_select_def Let_def mask_idx[OF assms(1)] list_all_iff) simp

lemma get_noise_fft_Array2:
  assumes "0 < T" "hi \<le> 1 / 2"
  shows "get_noise_fft (Array2 T rows) (lo, hi) m =
         Inr (mean_psd (map (\<lambda>r. map (\<lambda>k. psd_row r ! k) (band_bins T (lo, hi))) rows) m)"
  unfolding get_noise_fft_def Let_def shape_last.simps ndarray.case
  using assms by (simp only: mask_select_band and_then_def sum.case) simp

lemma band_bins_empty: "hi \<le> lo \<Longrightarrow> band_bins T (lo, hi) = []"
  by (auto simp: band_bins_def filter_empty_conv)

lemma mean_psd_empty_rows: "mean_psd (replicate n []) m = replicate n NaN"
  by (simp add: mean_psd_def np_mean_def np_median_def)

subsection \<open>The blocks the orchestrator dispatches\<close>

lemma and_then_Inr [simp]: "and_then (Inr v) f = f v"
  by (simp add: and_then_def)

lemma and_then_Inl [simp]: "and_then (Inl e) f = Inl e"
  by (simp add: and_then_def)

lemma and_then_eq_Inr: "and_then m f = Inr r \<longleftrightarrow> (\<exists>v. m = Inr v \<and> f v = Inr r)"
  by (cases m) simp_all

lemma mapM_Inr: "(\<And>x. x \<in> set xs \<Longrightarrow> f x = Inr (h x)) \<Longrightarrow> mapM f xs = Inr (map h xs)"
  by (induction xs) simp_all

lemma mapM_map_Inr:
  "(\<And>x. x \<in> set xs \<Longrightarrow> f (i x) = Inr (h x)) \<Longrightarrow> mapM f (map i xs) = Inr (map h xs)"
  by (induction xs) simp_all

lemma py_range_step1: "py_range a b 1 = Inr (map (\<lambda>t. a + int t) [0..<nat (b - a)])"
  by (simp add: py_range_def)

lemma pixel_groups_pos:
  assumes "0 < g"
  shows "pixel_groups N (int g) = Inr (map (\<lambda>j. int (j * g)) [0..<N div g])"
proof -
  have "(int N - int g + 1 - 0 + int g - 1) div int g = int (N div g)"
    by (simp add: zdiv_int)
  then have "nat ((int N - int g + 1 - 0 + int g - 1) div int g) = N div g"
    by simp
  then show ?thesis
    using assms unfolding pixel_groups_def py_range_def by (simp only:) simp
qed

lemma block_range: "py_range (int a) (int a + int n) 1 = Inr (map int [a..<a + n])"
proof -
  have "map (\<lambda>t. int a + int t) [0..<n] = map int [a..<a + n]"
    by (rule nth_equalityI) simp_all
  then show ?thesis by (simp add: py_range_step1)
qed




subsection \<open>Writes into the shared buffer\<close>

lemma norm_index_nat: "i < n \<Longrightarrow> norm_index n (int i) = Inr i"
  by (simp add: norm_index_def)

lemma mapM_norm_index_upt:
  "a + n \<le> L \<Longrightarrow> mapM (norm_index L) (map int [a..<a + n]) = Inr [a..<a + n]"
  using mapM_map_Inr[of "[a..<a + n]" "norm_index L" int "\<lambda>j. j"]
  by (simp add: norm_index_nat)

lemma np_take_upt:
  "a + n \<le> length xs \<Longrightarrow> np_take xs (map int [a..<a + n]) = Inr (take n (drop a xs))"
proof -
  assume h: "a + n \<le> length xs"
  have "map (\<lambda>j. xs ! j) [a..<a + n] = take n (drop a xs)"
    using h by (intro nth_equalityI) simp_all
  then show ?thesis
    by (simp add: np_take_def mapM_norm_index_upt[OF h])
qed



lemma fold_update_block:
  "a + length res \<le> length c \<Longrightarrow>
   fold (\<lambda>(j, v) c. c[j := v]) (zip [a..<a + length res] res) c =
   take a c @ res @ drop (a + length res) c"
proof (induction res arbitrary: a c)
  case Nil
  then show ?case by simp
next
  case (Cons v vs)
  have z: "zip [a..<a + length (v # vs)] (v # vs) = (a, v) # zip [Suc a..<Suc a + length vs] vs"
  proof -
    have "[a..<a + length (v # vs)] = a # [Suc a..<Suc a + length vs]"
      using upt_conv_Cons[of a "a + length (v # vs)"] by simp
    then show ?thesis by (simp only: zip_Cons_Cons)
  qed
  have len: "Suc a + length vs \<le> length (c[a := v])" using Cons.prems by simp
  have t: "take (Suc a) (c[a := v]) = take a c @ [v]"
    using Cons.prems by (simp add: take_Suc_conv_app_nth)
  have d: "drop (Suc a + length vs) (c[a := v]) = drop (a + length (v # vs)) c"
    by simp
  show ?case
    unfolding z using Cons.IH[OF len] by (simp add: t)
qed

lemma assign_cells_block:
  assumes "a + length res \<le> length (cells s)"
  shows "assign_cells s (map int [a..<a + length res]) res =
         Inr \<lparr>cells = take a (cells s) @ res @ drop (a + length res) (cells s),
              writes = writes s @ [a..<a + length res]\<rparr>"
  by (simp add: assign_cells_def mapM_norm_index_upt[OF assms] fold_update_block[OF assms])





subsection \<open>The values the orchestrator returns\<close>

lemma mean_psd_map: "mean_psd y m = map (\<lambda>r. hd (mean_psd [r] m)) y"
  by (simp add: mean_psd_def)

lemma length_mean_psd: "length (mean_psd y m) = length y"
  by (simp add: mean_psd_def)

lemma get_noise_fft_length:
  "get_noise_fft (Array2 T rows) b m = Inr sn \<Longrightarrow> length sn = length rows"
  by (auto simp: get_noise_fft_def Let_def and_then_eq_Inr length_mean_psd split: if_splits)

lemma get_noise_fft_take:
  assumes "get_noise_fft (Array2 T rows) b m = Inr sn"
  shows "get_noise_fft (Array2 T (take n (drop a rows))) b m = Inr (take n (drop a sn))"
proof -
  from assms obtain idx where T: "T \<noteq> 0"
    and idx: "mask_select (band_mask T b) (T div 2 + 1) = Inr idx"
    and sn: "sn = mean_psd (map (\<lambda>r. map (\<lambda>k. psd_row r ! k) idx) rows) m"
    by (auto simp: get_noise_fft_def Let_def and_then_eq_Inr split: if_splits)
  have "mean_psd (map (\<lambda>r. map (\<lambda>k. psd_row r ! k) idx) (take n (drop a rows))) m =
        take n (drop a sn)"
    unfolding sn
    by (subst (1 2) mean_psd_map) (simp add: take_map drop_map)
  then show ?thesis
    using T idx by (simp add: get_noise_fft_def Let_def)
qed

lemma fft_psd_parallel_value:
  assumes "get_noise_fft_kw (Array2 T rows) kw = Inr sn"
    and "a + n \<le> length rows" and "length (cells s) = length rows"
  shows "fft_psd_parallel (Array2 T rows) s (int a) (int n) kw =
         Inr \<lparr>cells = take a (cells s) @ take n (drop a sn) @ drop (a + n) (cells s),
              writes = writes s @ [a..<a + n]\<rparr>"
proof -
  have len: "length sn = length rows"
    using assms(1) unfolding get_noise_fft_kw_def by (rule get_noise_fft_length)
  have sub: "get_noise_fft_kw (Array2 T (take n (drop a rows))) kw = Inr (take n (drop a sn))"
    using assms(1) unfolding get_noise_fft_kw_def by (rule get_noise_fft_take)
  have l: "length (take n (drop a sn)) = n" using len assms(2) by simp
  have "a + length (take n (drop a sn)) \<le> length (cells s)" using l assms(2,3) by simp
  from assign_cells_block[OF this] show ?thesis
    unfolding fft_psd_parallel_def block_range and_then_Inr take_rows.simps
      np_take_upt[OF assms(2)] sub l .
qed

lemma run_groups_value:
  assumes "get_noise_fft_kw (Array2 T rows) kw = Inr sn"
    and "q * g \<le> length rows" and "a \<le> q" and "length (cells s) = length rows"
  shows "\<exists>s'. run_groups (Array2 T rows) s (map (\<lambda>j. int (j * g)) [a..<q]) (int g) kw = Inr s' \<and>
           length (cells s') = length rows \<and>
           writes s' = writes s @ [a * g..<q * g] \<and>
           (\<forall>j<length rows. cells s' ! j = (if a * g \<le> j \<and> j < q * g then sn ! j else cells s ! j))"
  using assms(3,4)
proof (induction "q - a" arbitrary: a s)
  case 0
  then have "q = a" by simp
  then show ?case using "0.prems"(2) by auto
next
  case (Suc d)
  then have lt: "a < q" by simp
  then have l: "[a..<q] = a # [Suc a..<q]" by (simp add: upt_conv_Cons)
  have le: "Suc a * g \<le> q * g" using lt by (intro mult_le_mono1) simp
  then have b: "a * g + g \<le> length rows" using assms(2) by simp
  have len: "length sn = length rows"
    using assms(1) unfolding get_noise_fft_kw_def by (rule get_noise_fft_length)
  define s1 where "s1 = \<lparr>cells = take (a * g) (cells s) @ take g (drop (a * g) sn) @ drop (a * g + g) (cells s),
              writes = writes s @ [a * g..<a * g + g]\<rparr>"
  have step: "fft_psd_parallel (Array2 T rows) s (int (a * g)) (int g) kw = Inr s1"
    unfolding s1_def by (rule fft_psd_parallel_value[OF assms(1) b Suc.prems(2)])
  have c1: "length (cells s1) = length rows"
    using b len Suc.prems(2) by (simp add: s1_def)
  have n1: "cells s1 ! j = (if a * g \<le> j \<and> j < a * g + g then sn ! j else cells s ! j)"
    if "j < length rows" for j
    using that b len Suc.prems(2) by (auto simp: s1_def nth_append)
  have "d = q - Suc a" using Suc.hyps(2) by simp
  from Suc.hyps(1)[OF this _ c1] lt obtain s' where
    r: "run_groups (Array2 T rows) s1 (map (\<lambda>j. int (j * g)) [Suc a..<q]) (int g) kw = Inr s'"
    and c: "length (cells s') = length rows"
    and w: "writes s' = writes s1 @ [Suc a * g..<q * g]"
    and n: "\<forall>j<length rows. cells s' ! j = (if Suc a * g \<le> j \<and> j < q * g then sn ! j else cells s1 ! j)"
    by auto
  have app: "[a * g..<a * g + g] @ [Suc a * g..<q * g] = [a * g..<q * g]"
    using le upt_add_eq_append[of "a * g" "a * g + g" "q * g - (a * g + g)"]
    by (simp add: add.commute)
  have "run_groups (Array2 T rows) s (map (\<lambda>j. int (j * g)) [a..<q]) (int g) kw = Inr s'"
    unfolding l using step r by simp
  moreover have "writes s' = writes s @ [a * g..<q * g]"
    using w app by (simp add: s1_def)
  moreover have "\<forall>j<length rows. cells s' ! j = (if a * g \<le> j \<and> j < q * g then sn ! j else cells s ! j)"
    using n n1 le by auto
  ultimately show ?case using c by blast
qed

lemma get_noise_fft_parallel_value:
  assumes "0 < g" and "k \<noteq> 0"
    and "get_noise_fft_kw (Array2 T rows) kw = Inr sn"
    and "get_noise_fft_kw (Array2 T rows) no_kwargs = Inr sn0"
  shows "\<exists>s. get_noise_fft_parallel (Array2 T rows) k (int g) backend kw = Inr s \<and>
           writes s = [0..<length rows] \<and>
           cells s = take (length rows - length rows mod g) sn @
                     drop (length rows - length rows mod g) sn0"
proof -
  let ?N = "length rows"
  let ?Y = "Array2 T rows"
  let ?s0 = "\<lparr>cells = replicate ?N (Fin 0), writes = []\<rparr>"
  have m: "int ?N mod int g = int (?N mod g)" by (simp add: zmod_int)
  have r: "int ?N - int (?N mod g) = int (?N - ?N mod g)" by (simp add: of_nat_diff)
  have q: "?N div g * g = ?N - ?N mod g" by (metis minus_mod_eq_div_mult)
  have len: "length sn = ?N"
    using assms(3) unfolding get_noise_fft_kw_def by (rule get_noise_fft_length)
  have len0: "length sn0 = ?N"
    using assms(4) unfolding get_noise_fft_kw_def by (rule get_noise_fft_length)
  have "?N div g * g \<le> ?N" by (simp add: q)
  from run_groups_value[OF assms(3) this, of 0 ?s0] obtain s1 where
    s1: "run_groups ?Y ?s0 (map (\<lambda>j. int (j * g)) [0..<?N div g]) (int g) kw = Inr s1"
    and c1: "length (cells s1) = ?N"
    and w1: "writes s1 = [0..<?N - ?N mod g]"
    and n1: "\<forall>j<?N. cells s1 ! j = (if j < ?N - ?N mod g then sn ! j else Fin 0)"
    by (auto simp: q)
  have e1: "cells s1 = take (?N - ?N mod g) sn @ replicate (?N mod g) (Fin 0)"
    using n1 c1 len by (intro nth_equalityI) (auto simp: nth_append)
  show ?thesis
  proof (cases "0 < ?N mod g")
    case True
    have b: "?N - ?N mod g + ?N mod g \<le> ?N" by simp
    have "fft_psd_parallel ?Y s1 (int (?N - ?N mod g)) (int (?N mod g)) no_kwargs =
          Inr \<lparr>cells = take (?N - ?N mod g) (cells s1) @ take (?N mod g) (drop (?N - ?N mod g) sn0) @
                        drop (?N - ?N mod g + ?N mod g) (cells s1),
               writes = writes s1 @ [?N - ?N mod g..<?N - ?N mod g + ?N mod g]\<rparr>"
      by (rule fft_psd_parallel_value[OF assms(4) b c1])
    moreover have "take (?N - ?N mod g) (cells s1) @ take (?N mod g) (drop (?N - ?N mod g) sn0) @
                        drop (?N - ?N mod g + ?N mod g) (cells s1) =
         take (?N - ?N mod g) sn @ drop (?N - ?N mod g) sn0"
      using c1 len len0 by (simp add: e1)
    moreover have "writes s1 @ [?N - ?N mod g..<?N - ?N mod g + ?N mod g] = [0..<?N]"
      unfolding w1 using upt_add_eq_append[of 0 "?N - ?N mod g" "?N mod g"] by simp
    ultimately show ?thesis
      using True s1 assms(2)
      unfolding get_noise_fft_parallel_def Let_def shape0.simps pixel_groups_pos[OF assms(1)] and_then_Inr m r
      by simp
  next
    case False
    then have z: "?N mod g = 0" by simp
    have "cells s1 = take (?N - ?N mod g) sn @ drop (?N - ?N mod g) sn0"
      using e1 len len0 by (simp add: z)
    then show ?thesis
      using False s1 w1 assms(2)
      unfolding get_noise_fft_parallel_def Let_def shape0.simps pixel_groups_pos[OF assms(1)] and_then_Inr m r
      by (simp add: z)
  qed
qed

subsection \<open>The spectrum of a constant trace\<close>

lemma cis_eq_1_D:
  assumes "cis a = 1"
  shows "\<exists>n::int. a = of_int n * (2 * pi)"
proof -
  from assms have "cos a = 1" by (metis cis.simps(1) one_complex.simps(1))
  then show ?thesis by (simp add: cos_one_2pi_int mult.commute mult.left_commute)
qed

lemma root_of_unity_sum:
  assumes "0 < k" "k < T"
  shows "(\<Sum>t<T. cis (- (2 * pi * real k * real t / real T))) = 0"
proof -
  define w where "w = cis (- (2 * pi * real k / real T))"
  have T: "0 < T" using assms by simp
  have pw: "cis (- (2 * pi * real k * real t / real T)) = w ^ t" for t
    unfolding w_def DeMoivre by (simp add: field_simps)
  have wT: "w ^ T = 1"
  proof -
    have "w ^ T = cis (- (2 * pi * real k))"
      unfolding w_def DeMoivre using T by (simp add: field_simps)
    also have "\<dots> = inverse (cis (2 * pi * real k))" by (simp only: cis_inverse)
    also have "cis (2 * pi * real k) = 1" by (rule cis_multiple_2pi) simp
    finally show ?thesis by simp
  qed
  have w1: "w \<noteq> 1"
  proof
    assume "w = 1"
    then obtain n :: int where n: "- (2 * pi * real k / real T) = of_int n * (2 * pi)"
      unfolding w_def using cis_eq_1_D by blast
    then have "(2 * pi) * (- (real k / real T)) = (2 * pi) * of_int n"
      by (simp add: algebra_simps)
    then have "- (real k / real T) = of_int n"
      by (simp only: mult_cancel_left) simp
    then have "real k = - of_int n * real T" using T by (simp add: field_simps)
    then have "real k = real_of_int (- n * int T)" by simp
    then have e: "int k = - n * int T" by (metis of_int_of_nat_eq of_int_eq_iff)
    show False
    proof (cases "- n \<le> 0")
      case True
      then have "- n * int T \<le> 0" by (simp add: mult_le_0_iff)
      with e assms(1) show False by simp
    next
      case False
      then have "1 \<le> - n" by simp
      then have "1 * int T \<le> - n * int T" by (intro mult_right_mono) simp_all
      with e assms(2) show False by simp
    qed
  qed
  have "(\<Sum>t<T. w ^ t) = (w ^ T - 1) / (w - 1)" using w1 by (rule geometric_sum)
  then show ?thesis by (simp add: pw wT)
qed

lemma dft_bin_const:
  assumes "0 < k" "k < T"
  shows "dft_bin (replicate T c) k = 0"
proof -
  have "dft_bin (replicate T c) k =
        (\<Sum>t<T. of_real c * cis (- (2 * pi * real k * real t / real T)))"
    by (simp add: dft_bin_def)
  also have "\<dots> = of_real c * (\<Sum>t<T. cis (- (2 * pi * real k * real t / real T)))"
    by (simp add: sum_distrib_left)
  finally show ?thesis by (simp add: root_of_unity_sum[OF assms])
qed

lemma psd_row_nth:
  assumes "0 < k" "k \<le> length x div 2"
  shows "psd_row x ! k = (1 / real (length x)) * (cmod (dft_bin x k))\<^sup>2 * 2"
proof -
  have "[0..<length x div 2 + 1] = 0 # [1..<length x div 2 + 1]"
    by (simp add: upt_conv_Cons)
  then have "psd_row x = (1 / real (length x)) * (cmod (dft_bin x 0))\<^sup>2 #
      map (\<lambda>v. v * 2) (map (\<lambda>c. (1 / real (length x)) * (cmod c)\<^sup>2) (map (dft_bin x) [1..<length x div 2 + 1]))"
    unfolding psd_row_def rfft_def by (simp only: list.map list.case)
  moreover obtain j where j: "k = Suc j" using assms(1) by (cases k) auto
  ultimately show ?thesis using assms(2) by (simp del: upt_Suc)
qed

lemma psd_row_0: "psd_row x ! 0 = (1 / real (length x)) * (cmod (dft_bin x 0))\<^sup>2"
proof -
  have "[0..<length x div 2 + 1] = 0 # [1..<length x div 2 + 1]"
    by (simp add: upt_conv_Cons)
  then have "psd_row x = (1 / real (length x)) * (cmod (dft_bin x 0))\<^sup>2 #
      map (\<lambda>v. v * 2) (map (\<lambda>c. (1 / real (length x)) * (cmod c)\<^sup>2) (map (dft_bin x) [1..<length x div 2 + 1]))"
    unfolding psd_row_def rfft_def by (simp only: list.map list.case)
  then show ?thesis by simp
qed

lemma psd_row_const:
  assumes "0 < k" "k \<le> T div 2"
  shows "psd_row (replicate T c) ! k = 0"
proof -
  have "k < T" using assms by simp
  with assms show ?thesis by (simp add: psd_row_nth dft_bin_const)
qed

lemma fsum_replicate_NInf: "0 < n \<Longrightarrow> fsum (replicate n NInf) = NInf"
proof -
  have "fsum (replicate (Suc j) NInf) = NInf" for j
    unfolding fsum_def by (induction j) simp_all
  then show "0 < n \<Longrightarrow> fsum (replicate n NInf) = NInf"
    by (cases n) simp_all
qed

lemma fsum_replicate_0: "fsum (replicate n (Fin 0)) = Fin 0"
  unfolding fsum_def by (induction n) auto

lemma mean_psd_zero_rows:
  assumes "0 < n"
  shows "mean_psd (replicate r (replicate n 0)) m = replicate r (Fin 0)"
proof -
  have med: "np_median (replicate n 0) = Fin 0"
  proof -
    have "sort (replicate n (0::real)) = replicate n 0"
      by (simp add: sorted_replicate sort_key_id_if_sorted)
    then show ?thesis
      using assms by (simp add: np_median_def Let_def)
  qed
  show ?thesis
    using assms
    by (simp add: mean_psd_def np_mean_def fsum_replicate_0 fsum_replicate_NInf np_log_def med)
qed

subsection \<open>Four-sample traces\<close>

lemma cis_quarter: "cis (- (2 * pi * real k * real t / 4)) = (- \<i>) ^ (k * t)"
proof -
  have "cis (- (2 * pi * real k * real t / 4)) = cis (real (k * t) * (- (pi / 2)))"
    by (simp add: field_simps)
  also have "\<dots> = cis (- (pi / 2)) ^ (k * t)" by (simp only: DeMoivre)
  finally show ?thesis by simp
qed

lemma sum_lessThan_4: "(\<Sum>t<(4::nat). f t) = f 0 + f 1 + f 2 + (f 3 :: complex)"
  by (simp add: eval_nat_numeral)

lemma dft_bin_4:
  "dft_bin [a, b, c, d] k =
     of_real a + of_real b * (- \<i>) ^ k + of_real c * (- \<i>) ^ (k * 2) + of_real d * (- \<i>) ^ (k * 3)"
proof -
  have len: "length [a, b, c, d] = 4" by simp
  have "dft_bin [a, b, c, d] k =
        (\<Sum>t<(4::nat). of_real ([a, b, c, d] ! t) * cis (- (2 * pi * real k * real t / 4)))"
    unfolding dft_bin_def len by simp
  also have "\<dots> = (\<Sum>t<(4::nat). of_real ([a, b, c, d] ! t) * (- \<i>) ^ (k * t))"
    by (simp only: cis_quarter)
  finally show ?thesis by (simp add: sum_lessThan_4 mult.commute)
qed

lemma band_bins_4_low: "band_bins 4 (0, 1 / 4) = [1]"
  by (simp add: band_bins_def upt_rec)

lemma band_bins_4_default: "band_bins 4 (1 / 4, 1 / 2) = [2]"
  by (simp add: band_bins_def upt_rec)

lemma psd_1000_1: "psd_row [1, 0, 0, 0] ! 1 = 1 / 2"
  by (simp add: psd_row_nth dft_bin_4)

lemma psd_1000_2: "psd_row [1, 0, 0, 0] ! 2 = 1 / 2"
  by (simp add: psd_row_nth dft_bin_4)

lemma psd_2100_1: "psd_row [2, 1, 0, 0] ! 1 = 5 / 2"
  by (simp add: psd_row_nth dft_bin_4 cmod_power2)

lemma psd_2100_2: "psd_row [2, 1, 0, 0] ! 2 = 1 / 2"
  by (simp add: psd_row_nth dft_bin_4 cmod_power2)

subsection \<open>Claims about the noise estimator and the averager\<close>

lemma mask_select_bins:
  assumes "0 < T" "list_all (\<lambda>k. k < T div 2 + 1) (band_bins T (lo, hi))"
  shows "mask_select (band_mask T (lo, hi)) (T div 2 + 1) = Inr (band_bins T (lo, hi))"
  using assms(2) by (simp only: mask_select_def Let_def mask_idx[OF assms(1)]) simp

lemma get_noise_fft_no_bins:
  assumes "0 < T" "band_bins T (lo, hi) = []"
  shows "get_noise_fft (Array2 T rows) (lo, hi) m = Inr (replicate (length rows) NaN)"
proof -
  have "mask_select (band_mask T (lo, hi)) (T div 2 + 1) = Inr []"
    using mask_select_bins[OF assms(1), of lo hi] by (simp add: assms(2))
  then show ?thesis
    unfolding get_noise_fft_def Let_def shape_last.simps ndarray.case
    using assms(1) by (simp add: map_replicate_const mean_psd_empty_rows)
qed




text \<open>
  Claim C5. Whatever the movie, the noise vector and the other arguments are, calling
  \<^verbatim>\<open>estimate_time_constant\<close> with \<^verbatim>\<open>p=None\<close> raises the exception of its first statement,
  \<^verbatim>\<open>Exception("You need to define p")\<close>: the missing-parameter error.
\<close>

theorem estimate_time_constant_requires_p:
  "estimate_time_constant pinv Y sn None lags include_noise pixels =
   Inl (Exception ''You need to define p'')"
  by (simp add: estimate_time_constant_def)





text \<open>
  Claim C4, as stated, has \<^verbatim>\<open>get_noise_fft\<close> raise for the band \<open>[0.6, 0.5]\<close>. The source
  checks nothing: the mask is empty, and the averager returns \<^verbatim>\<open>nan\<close>.
\<close>

theorem get_noise_fft_inverted_band_counterexample:
  "get_noise_fft (Array2 4 [[1, 2, 3, 4]]) (0.6, 0.5) ''logmexp'' = Inr [NaN]"
  using get_noise_fft_no_bins[of 4 "0.6" "0.5" "[[1, 2, 3, 4]]" "''logmexp''"]
  by (simp add: band_bins_empty)

text \<open>
  Claim C4, amended. When the band selects no bin, in particular when its lower bound is not
  below its upper bound, \<^verbatim>\<open>get_noise_fft\<close> raises nothing on a movie of two dimensions with
  \<open>T > 0\<close> samples: it returns \<^verbatim>\<open>nan\<close> for every pixel, under every method.
\<close>

theorem get_noise_fft_empty_band:
  assumes "0 < T" "hi \<le> lo \<or> band_bins T (lo, hi) = []"
  shows "get_noise_fft (Array2 T rows) (lo, hi) m = Inr (replicate (length rows) NaN)"
  using assms get_noise_fft_no_bins band_bins_empty by blast

theorem get_noise_fft_empty_band_witness:
  "(0::nat) < 4 \<and> (0.5 :: real) \<le> 0.6 \<and>
   get_noise_fft (Array2 4 [[1, 2, 3, 4], [4, 3, 2, 1]]) (0.6, 0.5) ''median'' = Inr [NaN, NaN]"
  using get_noise_fft_empty_band[of 4 "0.5" "0.6" "[[1, 2, 3, 4], [4, 3, 2, 1]]" "''median''"]
  by simp

subsection \<open>Claims about the orchestrator\<close>





lemma get_noise_fft_kw_default:
  "0 < T \<Longrightarrow> get_noise_fft_kw (Array2 T rows) no_kwargs =
     Inr (mean_psd (map (\<lambda>r. map (\<lambda>k. psd_row r ! k) (band_bins T (0.25, 0.5))) rows) ''logmexp'')"
  by (simp add: get_noise_fft_kw_def no_kwargs_def get_noise_fft_Array2)


lemma default_band_selects:
  assumes "2 \<le> T"
  shows "T div 2 \<in> set (band_bins T (0.25, 0.5))"
proof -
  have "4 * (T div 2) > T" using assms by presburger
  then have "real T < 4 * real (T div 2)"
    by (metis of_nat_less_iff of_nat_mult of_nat_numeral)
  then have a: "0.25 < real (T div 2) / real T" using assms by (simp add: field_simps)
  have "2 * (T div 2) \<le> T" by simp
  then have "2 * real (T div 2) \<le> real T"
    by (metis of_nat_le_iff of_nat_mult of_nat_numeral)
  then have b: "real (T div 2) / real T \<le> 0.5" using assms by (simp add: field_simps)
  have "T div 2 < (T + 1) div 2 + 1" by simp
  with a b show ?thesis by (simp add: band_bins_def del: upt_Suc)
qed

lemma get_noise_fft_const_rows:
  assumes "0 < T" "0 \<le> lo" "hi \<le> 1 / 2" "band_bins T (lo, hi) \<noteq> []"
    and "\<forall>r\<in>set rows. \<exists>c. r = replicate T c"
  shows "get_noise_fft (Array2 T rows) (lo, hi) m = Inr (replicate (length rows) (Fin 0))"
proof -
  let ?bins = "band_bins T (lo, hi)"
  have zero: "map (\<lambda>k. psd_row r ! k) ?bins = replicate (length ?bins) 0" if "r \<in> set rows" for r
  proof -
    from assms(5) that obtain c where r: "r = replicate T c" by blast
    have "psd_row r ! k = 0" if k: "k \<in> set ?bins" for k
    proof -
      from band_bins_on_axis[OF assms(1,3) k] have le: "k \<le> T div 2" by simp
      from k have "lo < real k / real T" by (simp add: band_bins_def del: upt_Suc)
      with assms(2) have "0 < real k / real T" by linarith
      then have "0 < k" using assms(1) by (cases k) simp_all
      then show ?thesis unfolding r using le by (rule psd_row_const)
    qed
    then show ?thesis by (simp add: map_replicate_const[symmetric] del: map_replicate_const)
  qed
  have "map (\<lambda>r. map (\<lambda>k. psd_row r ! k) ?bins) rows =
        replicate (length rows) (replicate (length ?bins) 0)"
    using zero by (simp add: map_replicate_const[symmetric] del: map_replicate_const)
  moreover have "0 < length ?bins" using assms(4) by simp
  ultimately show ?thesis
    by (simp add: get_noise_fft_Array2[OF assms(1,3)] mean_psd_zero_rows)
qed

text \<open>
  Claim C8, as stated, holds for every movie of constant traces. When the band selects no
  bin the estimate is \<^verbatim>\<open>nan\<close>, not 0: so it is for two samples per trace and the band
  \<open>[0.25, 0.4]\<close>, and for a single sample per trace the default band selects no bin either.
\<close>

theorem get_noise_fft_constant_counterexample:
  "get_noise_fft (Array2 2 [[5, 5]]) (0.25, 0.4) ''mean'' = Inr [NaN] \<and>
   get_noise_fft (Array2 2 [[5, 5]]) (0.25, 0.4) ''median'' = Inr [NaN] \<and>
   get_noise_fft (Array2 2 [[5, 5]]) (0.25, 0.4) ''logmexp'' = Inr [NaN] \<and>
   get_noise_fft (Array2 1 [[5]]) (0.25, 0.5) ''logmexp'' \<noteq> Inr [Fin 0]"
proof -
  have "band_bins 1 (0.25, 0.5) = []" by (simp add: band_bins_def upt_rec)
  moreover have "band_bins 2 (0.25, 0.4) = []" by (simp add: band_bins_def upt_rec)
  ultimately show ?thesis
    using get_noise_fft_no_bins[of 1 "0.25" "0.5" "[[5]]"]
      get_noise_fft_no_bins[of 2 "0.25" "0.4" "[[5, 5]]"]
    by simp
qed

text \<open>
  Claim C8, amended. For every movie of two dimensions whose traces are constant over
  \<open>T > 0\<close> samples, and every band \<open>[lo, hi]\<close> with \<open>0 \<le> lo\<close> and \<open>hi \<le> 1/2\<close> that selects at
  least one bin, the estimate is 0 for every pixel under every method (in exact arithmetic;
  for \<^verbatim>\<open>logmexp\<close> through \<^verbatim>\<open>log(0) = -inf\<close> and \<^verbatim>\<open>exp(-inf) = 0\<close>). The default band
  selects a bin as soon as \<open>T \<ge> 2\<close>.
\<close>

theorem get_noise_fft_constant_traces:
  assumes "\<forall>r\<in>set rows. \<exists>c. r = replicate T c"
  shows "(0 < T \<and> 0 \<le> lo \<and> hi \<le> 1 / 2 \<and> band_bins T (lo, hi) \<noteq> [] \<longrightarrow>
            get_noise_fft (Array2 T rows) (lo, hi) m = Inr (replicate (length rows) (Fin 0))) \<and>
         (2 \<le> T \<longrightarrow>
            get_noise_fft (Array2 T rows) (0.25, 0.5) m = Inr (replicate (length rows) (Fin 0)))"
proof -
  have "get_noise_fft (Array2 T rows) (0.25, 0.5) m = Inr (replicate (length rows) (Fin 0))"
    if "2 \<le> T"
  proof -
    have "band_bins T (0.25, 0.5) \<noteq> []" using default_band_selects[OF that] by auto
    then show ?thesis using that assms by (intro get_noise_fft_const_rows) simp_all
  qed
  then show ?thesis using assms get_noise_fft_const_rows by blast
qed

theorem get_noise_fft_constant_traces_witness:
  "get_noise_fft (Array2 2 [[5, 5], [7, 7]]) (0.25, 0.5) ''mean'' = Inr [Fin 0, Fin 0] \<and>
   get_noise_fft (Array2 2 [[5, 5], [7, 7]]) (0.25, 0.5) ''median'' = Inr [Fin 0, Fin 0] \<and>
   get_noise_fft (Array2 2 [[5, 5], [7, 7]]) (0.25, 0.5) ''logmexp'' = Inr [Fin 0, Fin 0] \<and>
   get_noise_fft (Array2 4 [[3, 3, 3, 3]]) (0, 0.25) ''logmexp'' = Inr [Fin 0]"
proof -
  have r: "\<forall>r\<in>set [[5, 5], [7, 7 :: real]]. \<exists>c. r = replicate 2 c"
    by (simp add: numeral_2_eq_2)
  have r4: "\<forall>r\<in>set [[3, 3, 3, 3 :: real]]. \<exists>c. r = replicate 4 c"
    by (simp add: numeral_Bit0 replicate_add)
  have b: "band_bins 4 (0, 0.25) \<noteq> []" by (simp add: band_bins_def upt_rec)
  show ?thesis
    using get_noise_fft_constant_traces[OF r, of 0 0 "''mean''"]
      get_noise_fft_constant_traces[OF r, of 0 0 "''median''"]
      get_noise_fft_constant_traces[OF r, of 0 0 "''logmexp''"]
      get_noise_fft_constant_traces[OF r4, of 0 "0.25" "''logmexp''"] b
    by simp
qed

subsection \<open>The remainder block and the keyword arguments\<close>

text \<open>
  What the orchestrator returns on a movie of two dimensions, for a group size \<open>g > 0\<close>: the
  serial estimate under the caller's keyword arguments on the pixels of the dispatched
  groups, and the serial estimate under the defaults on the pixels of the remainder block.
\<close>

lemma get_noise_fft_parallel_cells:
  assumes "0 < g" and "k \<noteq> 0"
    and "get_noise_fft_kw (Array2 T rows) kw = Inr sn"
    and "get_noise_fft_kw (Array2 T rows) no_kwargs = Inr sn0"
  shows "map_sum id cells (get_noise_fft_parallel (Array2 T rows) k (int g) backend kw) =
         Inr (take (length rows - length rows mod g) sn @ drop (length rows - length rows mod g) sn0)"
  using get_noise_fft_parallel_value[OF assms, of backend] by auto

text \<open>
  So the parallel estimate is the serial one when the group size divides the pixel count, or
  when the caller passes no keyword arguments.
\<close>

lemma get_noise_fft_parallel_eq_serial:
  assumes "0 < g" and "k \<noteq> 0" and "get_noise_fft_kw (Array2 T rows) kw = Inr sn"
    and "length rows mod g = 0 \<or> kw = no_kwargs"
  shows "map_sum id cells (get_noise_fft_parallel (Array2 T rows) k (int g) backend kw) = Inr sn"
proof -
  have T: "0 < T" using assms(3) by (auto simp: get_noise_fft_kw_def get_noise_fft_def Let_def split: if_splits)
  have len: "length sn = length rows"
    using assms(3) unfolding get_noise_fft_kw_def by (rule get_noise_fft_length)
  obtain sn0 where sn0: "get_noise_fft_kw (Array2 T rows) no_kwargs = Inr sn0"
    using get_noise_fft_kw_default[OF T] by simp
  have len0: "length sn0 = length rows"
    using sn0 unfolding get_noise_fft_kw_def by (rule get_noise_fft_length)
  from assms(4) show ?thesis
  proof
    assume "length rows mod g = 0"
    then show ?thesis
      using get_noise_fft_parallel_cells[OF assms(1,2,3) sn0, of backend] len len0 by simp
  next
    assume "kw = no_kwargs"
    then show ?thesis
      using get_noise_fft_parallel_cells[OF assms(1,2,3), of sn backend] assms(3) by simp
  qed
qed

lemma mean_psd_mean_single: "0 \<le> v \<Longrightarrow> 0 \<le> w \<Longrightarrow> mean_psd [[v], [v], [w]] ''mean'' =
    [Fin (sqrt (v / 2)), Fin (sqrt (v / 2)), Fin (sqrt (w / 2))]"
  by (simp add: mean_psd_def np_mean_def fsum_def)

lemma mean_psd_logmexp_single: "0 < v \<Longrightarrow> mean_psd [[v], [v], [v]] ''logmexp'' =
    [Fin (sqrt (v / 2)), Fin (sqrt (v / 2)), Fin (sqrt (v / 2))]"
  by (simp add: mean_psd_def np_mean_def np_log_def fsum_def)

lemma sqrt_quarter: "sqrt (1 / 2 / 2) = 1 / 2"
proof -
  have "sqrt (1 / 2 / 2) = sqrt ((1 / 2)\<^sup>2)" by (simp add: power2_eq_square)
  then show ?thesis by simp
qed

lemma sqrt_five_quarters: "sqrt (5 / 2 / 2) = sqrt 5 / 2"
proof -
  have "sqrt (5 / 2 / 2) = sqrt (5 / 4)" by simp
  also have "\<dots> = sqrt 5 / sqrt 4" by (rule real_sqrt_divide)
  also have "sqrt (4 :: real) = 2" by simp
  finally show ?thesis .
qed

lemma serial_low_band_mean:
  "get_noise_fft (Array2 4 [[1, 0, 0, 0], [1, 0, 0, 0], [2, 1, 0, 0]]) (0, 1 / 4) ''mean'' =
   Inr [Fin (1 / 2), Fin (1 / 2), Fin (sqrt 5 / 2)]"
proof -
  have "map (\<lambda>r. map (\<lambda>k. psd_row r ! k) [1]) [[1, 0, 0, 0], [1, 0, 0, 0], [2, 1, 0, 0]] =
        [[1 / 2], [1 / 2], [5 / 2]]"
    by (simp only: list.map psd_1000_1 psd_2100_1)
  then have "get_noise_fft (Array2 4 [[1, 0, 0, 0], [1, 0, 0, 0], [2, 1, 0, 0]]) (0, 1 / 4) ''mean'' =
      Inr (mean_psd [[1 / 2], [1 / 2], [5 / 2]] ''mean'')"
    using get_noise_fft_Array2[of 4 "1 / 4" "[[1, 0, 0, 0], [1, 0, 0, 0], [2, 1, 0, 0]]" 0 "''mean''"]
    by (simp only: band_bins_4_low)
  also have "mean_psd [[1 / 2], [1 / 2], [5 / 2]] ''mean'' =
      [Fin (sqrt (1 / 2 / 2)), Fin (sqrt (1 / 2 / 2)), Fin (sqrt (5 / 2 / 2))]"
    by (rule mean_psd_mean_single) simp_all
  finally show ?thesis by (simp only: sqrt_quarter sqrt_five_quarters)
qed

lemma serial_default:
  "get_noise_fft (Array2 4 [[1, 0, 0, 0], [1, 0, 0, 0], [2, 1, 0, 0]]) (1 / 4, 1 / 2) ''logmexp'' =
   Inr [Fin (1 / 2), Fin (1 / 2), Fin (1 / 2)]"
proof -
  have "map (\<lambda>r. map (\<lambda>k. psd_row r ! k) [2]) [[1, 0, 0, 0], [1, 0, 0, 0], [2, 1, 0, 0]] =
        [[1 / 2], [1 / 2], [1 / 2]]"
    by (simp only: list.map psd_1000_2 psd_2100_2)
  then have "get_noise_fft (Array2 4 [[1, 0, 0, 0], [1, 0, 0, 0], [2, 1, 0, 0]]) (1 / 4, 1 / 2) ''logmexp'' =
      Inr (mean_psd [[1 / 2], [1 / 2], [1 / 2]] ''logmexp'')"
    using get_noise_fft_Array2[of 4 "1 / 2" "[[1, 0, 0, 0], [1, 0, 0, 0], [2, 1, 0, 0]]" "1 / 4" "''logmexp''"]
    by (simp only: band_bins_4_default)
  also have "mean_psd [[1 / 2], [1 / 2], [1 / 2]] ''logmexp'' =
      [Fin (sqrt (1 / 2 / 2)), Fin (sqrt (1 / 2 / 2)), Fin (sqrt (1 / 2 / 2))]"
    by (rule mean_psd_logmexp_single) simp
  finally show ?thesis by (simp only: sqrt_quarter)
qed

text \<open>
  Claim C1 fails on the source. Three pixels, four samples, groups of two pixels, and the
  keyword arguments \<^verbatim>\<open>noise_range=[0,0.25], noise_method='mean'\<close>: the serial estimator
  returns \<open>sqrt 5 / 2\<close> for the third pixel, the orchestrator returns \<open>1/2\<close>, the estimate
  under the default band and method, because its remainder call hands on no keyword
  arguments.
\<close>

theorem get_noise_fft_parallel_remainder_defaults:
  "get_noise_fft (Array2 4 [[1, 0, 0, 0], [1, 0, 0, 0], [2, 1, 0, 0]]) (0, 1 / 4) ''mean'' =
     Inr [Fin (1 / 2), Fin (1 / 2), Fin (sqrt 5 / 2)] \<and>
   map_sum id cells
     (get_noise_fft_parallel (Array2 4 [[1, 0, 0, 0], [1, 0, 0, 0], [2, 1, 0, 0]]) 4 2 ''threading''
        \<lparr>kw_noise_range = Some (0, 1 / 4), kw_noise_method = Some ''mean''\<rparr>) =
     Inr [Fin (1 / 2), Fin (1 / 2), Fin (1 / 2)] \<and>
   sqrt 5 / 2 \<noteq> (1 / 2 :: real)"
proof -
  let ?Y = "Array2 4 [[1, 0, 0, 0], [1, 0, 0, 0], [2, 1, 0, 0]]"
  let ?kw = "\<lparr>kw_noise_range = Some (0, 1 / 4), kw_noise_method = Some ''mean''\<rparr>"
  have a: "get_noise_fft_kw ?Y ?kw = Inr [Fin (1 / 2), Fin (1 / 2), Fin (sqrt 5 / 2)]"
    by (simp add: get_noise_fft_kw_def serial_low_band_mean)
  have b: "get_noise_fft_kw ?Y no_kwargs = Inr [Fin (1 / 2), Fin (1 / 2), Fin (1 / 2)]"
    using serial_default by (simp add: get_noise_fft_kw_def no_kwargs_def)
  have c: "sqrt 5 / 2 \<noteq> (1 / 2 :: real)" by simp
  from get_noise_fft_parallel_cells[of 2 4, OF _ _ a b, of "''threading''"]
  show ?thesis using serial_low_band_mean c by simp
qed

subsection \<open>Claims about the autocovariance and the fitter\<close>

lemma global_name_fft: "global_name ''fft'' = Inl (NameError ''fft'')"
  by (simp add: global_name_def module_names_def)

lemma axcov_NameError: "axcov data maxlag = Inl (NameError ''fft'')"
  by (simp add: axcov_def Let_def global_name_fft)

text \<open>
  Claim C6 fails on the source: \<^verbatim>\<open>axcov\<close> returns nothing, for any trace and any
  \<open>maxlag\<close>. Line 337 reads the name \<^verbatim>\<open>fft\<close>, which the module neither imports nor defines,
  and raises NameError.
\<close>

theorem axcov_raises_NameError: "axcov data maxlag = Inl (NameError ''fft'')"
  by (rule axcov_NameError)

text \<open>
  Claim C7 fails on the source for the same reason. On the trace of the specification's
  scenario, with \<open>maxlag = 3\<close>, \<^verbatim>\<open>axcov\<close> raises NameError instead of returning seven
  symmetric values.
\<close>

theorem axcov_scenario_raises_NameError:
  "axcov [1, 2, 3, 4, 5, 4, 3, 2, 1, 2, 3, 4, 5, 4, 3, 2] 3 = Inl (NameError ''fft'')"
  by (rule axcov_NameError)

text \<open>
  Claim C9 fails on the source for the same reason. On a movie of two pixels with traces of
  any length but 0 and 1, with \<^verbatim>\<open>p=2, lags=5, include_noise=False\<close> and all pixels selected,
  the first pass of the first loop calls \<^verbatim>\<open>axcov\<close>, and the fitter raises NameError,
  whatever \<^verbatim>\<open>pinv\<close> is.
\<close>

theorem estimate_time_constant_raises_NameError:
  assumes "T \<noteq> 0" "length r1 \<noteq> 1"
  shows "estimate_time_constant pinv (Array2 T [r1, r2]) sn (Some 2) 5 False None =
         Inl (NameError ''fft'')"
proof -
  have "int (2 * T) div int T = 2" using assms(1) by (simp add: zdiv_int[symmetric])
  then have px: "default_pixels (Array2 T [r1, r2]) = Inr [0, 1]"
    using assms(1) by (simp add: default_pixels_def py_range_def upt_rec)
  have "xc_row (Array2 T [r1, r2]) 7 0 = Inl (NameError ''fft'')"
    using assms(2) by (simp add: xc_row_def norm_index_def axcov_NameError)
  then show ?thesis
    by (simp add: estimate_time_constant_def px Let_def)
qed

theorem estimate_time_constant_raises_NameError_witness:
  "(16::nat) \<noteq> 0 \<and> length [1, 2, 3, 4, 5, 4, 3, 2, 1, 2, 3, 4, 5, 4, 3, 2 :: real] \<noteq> 1 \<and>
   estimate_time_constant (\<lambda>A. Inr A)
     (Array2 16 [[1, 2, 3, 4, 5, 4, 3, 2, 1, 2, 3, 4, 5, 4, 3, 2],
                 [2, 1, 2, 3, 4, 5, 4, 3, 2, 1, 2, 3, 4, 5, 4, 3]])
     [] (Some 2) 5 False None =
   Inl (NameError ''fft'')"
  using estimate_time_constant_raises_NameError[of 16 "[1, 2, 3, 4, 5, 4, 3, 2, 1, 2, 3, 4, 5, 4, 3, 2]"
      "\<lambda>A. Inr A" "[2, 1, 2, 3, 4, 5, 4, 3, 2, 1, 2, 3, 4, 5, 4, 3]" "[]"]
  by simp

subsection \<open>The autocovariance once the transforms are bound\<close>

text \<open>
  The lemmas of this subsection are about \<open>axcov_bound\<close>, the body of \<^verbatim>\<open>axcov\<close> as it runs
  when \<^verbatim>\<open>fft\<close> and \<^verbatim>\<open>ifft\<close> are NumPy's transforms: what the function returns once the
  module imports the two names.
\<close>

lemma angle_sum:
  fixes c :: real
  shows "- (c * s / n) + c * t / n + c * m / n = c * (m + t - s) / n"
  by (simp add: add_divide_distrib diff_divide_distrib ring_distribs)

lemma unity_sum:
  assumes "0 < n"
  shows "(\<Sum>k<n. cis (2 * pi * real k * real_of_int j / real n)) =
         (if int n dvd j then of_nat n else 0)"
proof -
  define w where "w = cis (2 * pi * real_of_int j / real n)"
  have pw: "cis (2 * pi * real k * real_of_int j / real n) = w ^ k" for k
    unfolding w_def DeMoivre by (simp add: field_simps)
  show ?thesis
  proof (cases "int n dvd j")
    case True
    then obtain q where q: "j = int n * q" by (auto elim: dvdE)
    have "2 * pi * real_of_int j / real n = 2 * pi * real_of_int q"
      unfolding q using assms by simp
    then have "w = cis (2 * pi * real_of_int q)"
      unfolding w_def by (simp only:)
    also have "\<dots> = 1" by (rule cis_multiple_2pi) simp
    finally show ?thesis using True by (simp add: pw)
  next
    case False
    have w1: "w \<noteq> 1"
    proof
      assume "w = 1"
      then obtain q :: int where "2 * pi * real_of_int j / real n = of_int q * (2 * pi)"
        unfolding w_def using cis_eq_1_D by blast
      then have "(2 * pi) * (real_of_int j / real n) = (2 * pi) * of_int q"
        by (simp add: algebra_simps)
      then have "real_of_int j / real n = of_int q"
        by (simp only: mult_cancel_left) simp
      then have "real_of_int j = real_of_int (int n * q)" using assms by (simp add: field_simps)
      then have "j = int n * q" by (simp only: of_int_eq_iff)
      with False show False by simp
    qed
    have "w ^ n = cis (2 * pi * real_of_int j)"
      unfolding w_def DeMoivre using assms by (simp add: field_simps)
    also have "\<dots> = 1" by (rule cis_multiple_2pi) simp
    finally have wn: "w ^ n = 1" .
    have "(\<Sum>k<n. w ^ k) = (w ^ n - 1) / (w - 1)" using w1 by (rule geometric_sum)
    then show ?thesis using False by (simp add: pw wn)
  qed
qed

lemma dvd_shift_iff:
  assumes "s < n"
  shows "int n dvd (int m + int t - int s) \<longleftrightarrow> s = (t + m) mod n"
proof -
  have "int n dvd (int (t + m) - int s) \<longleftrightarrow> int (t + m) mod int n = int s mod int n"
    by (simp only: mod_eq_dvd_iff)
  also have "\<dots> \<longleftrightarrow> (t + m) mod n = s mod n"
    by (simp only: zmod_int[symmetric] of_nat_eq_iff)
  also have "\<dots> \<longleftrightarrow> s = (t + m) mod n" using assms by auto
  finally show ?thesis by (simp add: add.commute)
qed

text \<open>
  The inverse transform of the squared magnitudes of the transform of a real sequence is
  its circular autocorrelation.
\<close>

lemma circular_autocorrelation:
  fixes x :: "nat \<Rightarrow> real"
  assumes "0 < n" "m < n"
  defines "X \<equiv> \<lambda>k. \<Sum>s<n. complex_of_real (x s) * cis (- (2 * pi * real k * real s / real n))"
  shows "(\<Sum>k<n. complex_of_real ((cmod (X k))\<^sup>2) * cis (2 * pi * real k * real m / real n)) / of_nat n =
         complex_of_real (\<Sum>t<n. x t * x ((t + m) mod n))"
proof -
  have sq: "complex_of_real ((cmod (X k))\<^sup>2) * cis (2 * pi * real k * real m / real n) =
        (\<Sum>s<n. \<Sum>t<n. complex_of_real (x s * x t) *
            cis (2 * pi * real k * real_of_int (int m + int t - int s) / real n))" for k
  proof -
    have cX: "cnj (X k) = (\<Sum>t<n. complex_of_real (x t) * cis (2 * pi * real k * real t / real n))"
      unfolding X_def by (simp add: cis_cnj)
    have "complex_of_real ((cmod (X k))\<^sup>2) = X k * cnj (X k)"
      by (rule complex_norm_square)
    also have "\<dots> = (\<Sum>s<n. \<Sum>t<n. (complex_of_real (x s) * cis (- (2 * pi * real k * real s / real n))) *
                 (complex_of_real (x t) * cis (2 * pi * real k * real t / real n)))"
      unfolding cX unfolding X_def by (rule sum_product)
    finally have "complex_of_real ((cmod (X k))\<^sup>2) * cis (2 * pi * real k * real m / real n) =
        (\<Sum>s<n. \<Sum>t<n. (complex_of_real (x s) * cis (- (2 * pi * real k * real s / real n))) *
                 (complex_of_real (x t) * cis (2 * pi * real k * real t / real n)) *
                 cis (2 * pi * real k * real m / real n))"
      by (simp add: sum_distrib_right)
    also have "\<dots> = (\<Sum>s<n. \<Sum>t<n. complex_of_real (x s * x t) *
            cis (2 * pi * real k * real_of_int (int m + int t - int s) / real n))"
    proof (intro sum.cong refl)
      fix s t
      have "- (2 * pi * real k * real s / real n) + 2 * pi * real k * real t / real n +
            2 * pi * real k * real m / real n =
            2 * pi * real k * real_of_int (int m + int t - int s) / real n"
        using angle_sum[of "2 * pi * real k" "real s" "real n" "real t" "real m"] by simp
      then have "cis (- (2 * pi * real k * real s / real n)) * cis (2 * pi * real k * real t / real n) *
            cis (2 * pi * real k * real m / real n) =
            cis (2 * pi * real k * real_of_int (int m + int t - int s) / real n)"
        by (simp only: cis_mult)
      then show "complex_of_real (x s) * cis (- (2 * pi * real k * real s / real n)) *
         (complex_of_real (x t) * cis (2 * pi * real k * real t / real n)) *
         cis (2 * pi * real k * real m / real n) =
         complex_of_real (x s * x t) *
         cis (2 * pi * real k * real_of_int (int m + int t - int s) / real n)"
        by (simp add: mult.assoc mult.left_commute)
    qed
    finally show ?thesis .
  qed
  have "(\<Sum>k<n. complex_of_real ((cmod (X k))\<^sup>2) * cis (2 * pi * real k * real m / real n)) =
        (\<Sum>k<n. \<Sum>s<n. \<Sum>t<n. complex_of_real (x s * x t) *
            cis (2 * pi * real k * real_of_int (int m + int t - int s) / real n))"
    by (simp only: sq)
  also have "\<dots> = (\<Sum>s<n. \<Sum>k<n. \<Sum>t<n. complex_of_real (x s * x t) *
            cis (2 * pi * real k * real_of_int (int m + int t - int s) / real n))"
    by (rule sum.swap)
  also have "\<dots> = (\<Sum>s<n. \<Sum>t<n. \<Sum>k<n. complex_of_real (x s * x t) *
            cis (2 * pi * real k * real_of_int (int m + int t - int s) / real n))"
    by (intro sum.cong refl sum.swap)
  also have "\<dots> = (\<Sum>s<n. \<Sum>t<n. complex_of_real (x s * x t) *
            (if int n dvd (int m + int t - int s) then of_nat n else 0))"
  proof (intro sum.cong refl)
    fix s t
    have "(\<Sum>k<n. complex_of_real (x s * x t) *
            cis (2 * pi * real k * real_of_int (int m + int t - int s) / real n)) =
          complex_of_real (x s * x t) *
            (\<Sum>k<n. cis (2 * pi * real k * real_of_int (int m + int t - int s) / real n))"
      by (rule sum_distrib_left[symmetric])
    then show "(\<Sum>k<n. complex_of_real (x s * x t) *
            cis (2 * pi * real k * real_of_int (int m + int t - int s) / real n)) =
          complex_of_real (x s * x t) *
            (if int n dvd (int m + int t - int s) then of_nat n else 0)"
      by (simp only: unity_sum[OF assms(1)])
  qed
  also have "\<dots> = (\<Sum>s<n. \<Sum>t<n. if s = (t + m) mod n then complex_of_real (x s * x t) * of_nat n else 0)"
    by (intro sum.cong refl) (simp add: dvd_shift_iff)
  also have "\<dots> = (\<Sum>t<n. \<Sum>s<n. if s = (t + m) mod n then complex_of_real (x s * x t) * of_nat n else 0)"
    by (rule sum.swap)
  also have "\<dots> = (\<Sum>t<n. complex_of_real (x ((t + m) mod n) * x t) * of_nat n)"
    using assms(1) by (intro sum.cong refl) (simp add: sum.delta')
  also have "\<dots> = complex_of_real (\<Sum>t<n. x t * x ((t + m) mod n)) * of_nat n"
    by (simp add: sum_distrib_left mult.commute)
  finally show ?thesis using assms(1) by simp
qed


lemma shift_back: "a < n \<Longrightarrow> l \<le> n \<Longrightarrow> ((a + (n - l)) mod n + l) mod n = (a::nat)"
  by (simp add: mod_add_left_eq)

lemma shift_forth: "a < n \<Longrightarrow> l \<le> n \<Longrightarrow> ((a + l) mod n + (n - l)) mod n = (a::nat)"
proof -
  assume a: "a < n" and l: "l \<le> n"
  have "((a + l) mod n + (n - l)) mod n = (a + l + (n - l)) mod n"
    by (rule mod_add_left_eq)
  also have "a + l + (n - l) = a + n" using l by simp
  finally show ?thesis using a by simp
qed

lemma circular_reverse:
  fixes x :: "nat \<Rightarrow> real"
  assumes "0 < n" "l \<le> n"
  shows "(\<Sum>t<n. x t * x ((t + (n - l)) mod n)) = (\<Sum>t<n. x t * x ((t + l) mod n))"
proof (rule sum.reindex_bij_witness[of _ "\<lambda>s. (s + l) mod n" "\<lambda>t. (t + (n - l)) mod n"])
  fix a assume "a \<in> {..<n}"
  then have a: "a < n" by simp
  show "((a + (n - l)) mod n + l) mod n = a" using a assms(2) by (rule shift_back)
  show "(a + (n - l)) mod n \<in> {..<n}" using assms(1) by simp
  show "x ((a + (n - l)) mod n) * x (((a + (n - l)) mod n + l) mod n) = x a * x ((a + (n - l)) mod n)"
    by (simp add: shift_back[OF a assms(2)])
next
  fix b assume "b \<in> {..<n}"
  then have b: "b < n" by simp
  show "((b + l) mod n + (n - l)) mod n = b" using b assms(2) by (rule shift_forth)
  show "(b + l) mod n \<in> {..<n}" using assms(1) by simp
qed

lemma sum_zero_tail:
  fixes F :: "nat \<Rightarrow> real"
  assumes "a \<le> n" "\<And>t. a \<le> t \<Longrightarrow> t < n \<Longrightarrow> F t = 0"
  shows "(\<Sum>t<n. F t) = (\<Sum>t<a. F t)"
proof -
  have "{..<a} \<subseteq> {..<n}" using assms(1) by auto
  moreover have "\<forall>t\<in>{..<n} - {..<a}. F t = 0" using assms(2) by auto
  ultimately show ?thesis by (intro sum.mono_neutral_right) auto
qed

lemma zero_padded_lag:
  fixes d :: "real list"
  assumes "l < length d" "2 * length d \<le> n + 1"
  shows "(\<Sum>t<n. (if t < length d then d ! t else 0) *
               (if (t + l) mod n < length d then d ! ((t + l) mod n) else 0)) =
         (\<Sum>t<length d - l. d ! t * d ! (t + l))"
proof -
  let ?T = "length d"
  let ?F = "\<lambda>t. (if t < ?T then d ! t else 0) * (if (t + l) mod n < ?T then d ! ((t + l) mod n) else 0)"
  have le: "?T - l \<le> n" using assms by simp
  have tail: "?F t = 0" if "?T - l \<le> t" "t < n" for t
  proof (cases "t < ?T")
    case True
    then have "t + l < n" using assms by simp
    then have "(t + l) mod n = t + l" by simp
    moreover have "\<not> t + l < ?T" using that(1) by simp
    ultimately show ?thesis by simp
  next
    case False
    then show ?thesis by simp
  qed
  have "(\<Sum>t<n. ?F t) = (\<Sum>t<?T - l. ?F t)" using le tail by (rule sum_zero_tail)
  also have "\<dots> = (\<Sum>t<?T - l. d ! t * d ! (t + l))"
  proof (intro sum.cong refl)
    fix t assume "t \<in> {..<?T - l}"
    then have t: "t + l < ?T" by auto
    then have "t + l < n" using assms by simp
    then have "(t + l) mod n = t + l" by simp
    with t show "?F t = d ! t * d ! (t + l)" by simp
  qed
  finally show ?thesis .
qed

lemma nextpow2_loop_ge: "avalue \<le> 2 ^ nextpow2_loop avalue e"
proof (induction avalue e rule: nextpow2_loop.induct)
  case (1 avalue exponent)
  show ?case
  proof (cases "avalue > 2 ^ exponent")
    case True
    with "1.IH" show ?thesis by (subst nextpow2_loop.simps) simp
  next
    case False
    then show ?thesis by (subst nextpow2_loop.simps) simp
  qed
qed

lemma nextpow2_ge: "0 < T \<Longrightarrow> 2 * T \<le> 2 ^ nextpow2 (2 * int T - 1) + 1"
proof -
  assume "0 < T"
  then have "\<bar>2 * int T - 1\<bar> = 2 * int T - 1" by simp
  then have "2 * int T - 1 \<le> 2 ^ nextpow2 (2 * int T - 1)"
    unfolding nextpow2_def using nextpow2_loop_ge[of "2 * int T - 1" 0] by simp
  then have "int (2 * T) \<le> int (2 ^ nextpow2 (2 * int T - 1) + 1)" by simp
  then show ?thesis by (simp only: of_nat_le_iff)
qed

lemma length_np_fft: "length (np_fft a n) = n"
  by (simp add: np_fft_def Let_def)

lemma nth_np_fft:
  assumes "k < n" "length d \<le> n"
  shows "np_fft (map complex_of_real d) n ! k =
         (\<Sum>t<n. complex_of_real (if t < length d then d ! t else 0) *
                 cis (- (2 * pi * real k * real t / real n)))"
proof -
  have "(take n (map complex_of_real d) @ replicate (n - length (map complex_of_real d)) 0) ! t =
        complex_of_real (if t < length d then d ! t else 0)" if "t < n" for t
    using that assms(2) by (simp add: nth_append)
  then have "(\<Sum>t<n. (take n (map complex_of_real d) @
                  replicate (n - length (map complex_of_real d)) 0) ! t *
                 cis (- (2 * pi * real k * real t / real n))) =
         (\<Sum>t<n. complex_of_real (if t < length d then d ! t else 0) *
                 cis (- (2 * pi * real k * real t / real n)))"
    by (intro sum.cong refl) simp
  then show ?thesis
    using assms(1) unfolding np_fft_def Let_def by (simp only: nth_map length_upt nth_upt) simp
qed

lemma length_np_ifft: "length (np_ifft X) = length X"
  by (simp add: np_ifft_def Let_def)

lemma nth_np_ifft:
  "m < length X \<Longrightarrow>
   np_ifft X ! m =
   (\<Sum>k<length X. X ! k * cis (2 * pi * real k * real m / real (length X))) / of_nat (length X)"
  by (simp add: np_ifft_def Let_def)

lemma nth_xcov:
  assumes "0 < n" "m < n" "length d \<le> n"
  shows "np_ifft (map (\<lambda>c. complex_of_real ((cmod c)\<^sup>2)) (np_fft (map complex_of_real d) n)) ! m =
         complex_of_real (\<Sum>t<n. (if t < length d then d ! t else 0) *
                               (if (t + m) mod n < length d then d ! ((t + m) mod n) else 0))"
proof -
  let ?x = "\<lambda>t. if t < length d then d ! t else 0"
  let ?X = "\<lambda>k. \<Sum>s<n. complex_of_real (?x s) * cis (- (2 * pi * real k * real s / real n))"
  let ?P = "map (\<lambda>c. complex_of_real ((cmod c)\<^sup>2)) (np_fft (map complex_of_real d) n)"
  have len: "length ?P = n" by (simp add: length_np_fft)
  have P: "?P ! k = complex_of_real ((cmod (?X k))\<^sup>2)" if "k < n" for k
    using that by (simp only: nth_map length_np_fft nth_np_fft[OF that assms(3)])
  have "np_ifft ?P ! m =
        (\<Sum>k<n. ?P ! k * cis (2 * pi * real k * real m / real n)) / of_nat n"
    using nth_np_ifft[of m ?P] assms(2) by (simp only: len)
  also have "(\<Sum>k<n. ?P ! k * cis (2 * pi * real k * real m / real n)) =
        (\<Sum>k<n. complex_of_real ((cmod (?X k))\<^sup>2) * cis (2 * pi * real k * real m / real n))"
    by (intro sum.cong refl) (simp only: P lessThan_iff)
  also have "\<dots> / of_nat n = complex_of_real (\<Sum>t<n. ?x t * ?x ((t + m) mod n))"
    using circular_autocorrelation[OF assms(1,2), of ?x] by simp
  finally show ?thesis by simp
qed

lemma axcov_bound_lags:
  assumes "maxlag < length data"
  shows "\<exists>r. axcov_bound data (int maxlag) = Inr r \<and> length r = 2 * maxlag + 1 \<and>
           (\<forall>l\<le>maxlag.
              r ! (maxlag + l) =
                Fin ((\<Sum>t<length data - l. data ! t * data ! (t + l)) / real (length data)) \<and>
              r ! (maxlag - l) = r ! (maxlag + l))"
proof -
  let ?T = "length data"
  let ?L = maxlag
  define n :: nat where "n = 2 ^ nextpow2 (2 * int ?T - 1)"
  define xcov where
    "xcov = np_ifft (map (\<lambda>c. complex_of_real ((cmod c)\<^sup>2)) (np_fft (map complex_of_real data) n))"
  define g where "g = (\<lambda>c. Fin (Re (c / of_nat ?T)))"
  define A where "A = (\<lambda>l. \<Sum>t<?T - l. data ! t * data ! (t + l))"
  have T: "0 < ?T" using assms by (cases data) simp_all
  have n2: "2 * ?T \<le> n + 1" unfolding n_def by (rule nextpow2_ge[OF T])
  have n0: "0 < n" unfolding n_def by simp
  have Tn: "?T \<le> n" using n2 T by simp
  have Ln: "?L + 1 \<le> n" using assms Tn by simp
  have len: "length xcov = n" by (simp add: xcov_def length_np_ifft length_np_fft)
  have val: "xcov ! l = complex_of_real (A l)" if "l < ?T" for l
  proof -
    have "l < n" using that Tn by simp
    from nth_xcov[OF n0 this Tn] zero_padded_lag[OF that n2]
    show ?thesis by (simp only: xcov_def A_def)
  qed
  have rev: "xcov ! (n - l) = complex_of_real (A l)" if "0 < l" "l < ?T" for l
  proof -
    have ln: "l \<le> n" "n - l < n" using that Tn n0 by simp_all
    let ?x = "\<lambda>t. if t < length data then data ! t else 0"
    have "xcov ! (n - l) = complex_of_real (\<Sum>t<n. ?x t * ?x ((t + (n - l)) mod n))"
      unfolding xcov_def by (rule nth_xcov[OF n0 ln(2) Tn])
    also have "(\<Sum>t<n. ?x t * ?x ((t + (n - l)) mod n)) = (\<Sum>t<n. ?x t * ?x ((t + l) mod n))"
      by (rule circular_reverse[OF n0 ln(1)])
    also have "\<dots> = A l" unfolding A_def by (rule zero_padded_lag[OF that(2) n2])
    finally show ?thesis .
  qed
  have gA: "g (complex_of_real a) = Fin (a / real ?T)" for a
    by (simp add: g_def)
  define r where "r = map g (take ?L (drop (n - ?L) xcov) @ take (?L + 1) (drop 0 xcov))"
  have neg: "py_range (int (length xcov) - int ?L) (int (length xcov)) 1 = Inr (map int [n - ?L..<n - ?L + ?L])"
  proof -
    have "py_range (int (length xcov) - int ?L) (int (length xcov)) 1 =
          py_range (int (n - ?L)) (int (n - ?L) + int ?L) 1"
      using Ln len by (intro arg_cong2[where f = "\<lambda>a b. py_range a b 1"]) simp_all
    then show ?thesis by (simp only: block_range)
  qed
  have pos: "py_range 0 (int ?L + 1) 1 = Inr (map int [0..<0 + (?L + 1)])"
  proof -
    have "py_range 0 (int ?L + 1) 1 = py_range (int 0) (int 0 + int (?L + 1)) 1"
      by (intro arg_cong2[where f = "\<lambda>a b. py_range a b 1"]) simp_all
    then show ?thesis by (simp only: block_range)
  qed
  have t1: "np_take xcov (map int [n - ?L..<n - ?L + ?L]) = Inr (take ?L (drop (n - ?L) xcov))"
    by (rule np_take_upt) (use Ln len in simp)
  have t2: "np_take xcov (map int [0..<0 + (?L + 1)]) = Inr (take (?L + 1) (drop 0 xcov))"
    by (rule np_take_upt) (use Ln len in simp)
  have run: "axcov_bound data (int ?L) = Inr r"
    unfolding axcov_bound_def Let_def n_def[symmetric] xcov_def[symmetric]
    using T by (simp only: neg pos t1 t2 and_then_Inr r_def g_def) simp
  have lr: "length r = 2 * ?L + 1" using Ln len by (simp add: r_def)
  have hi: "r ! (?L + l) = Fin (A l / real ?T)" if "l \<le> ?L" for l
  proof -
    have "r ! (?L + l) = g (xcov ! l)"
      using that Ln len by (simp add: r_def nth_append)
    also have "\<dots> = Fin (A l / real ?T)"
      using val[of l] that assms by (simp add: gA)
    finally show ?thesis .
  qed
  have lo: "r ! (?L - l) = Fin (A l / real ?T)" if "0 < l" "l \<le> ?L" for l
  proof -
    have "n - ?L + (?L - l) = n - l" using that Ln by simp
    then have "r ! (?L - l) = g (xcov ! (n - l))"
      using that Ln len by (simp add: r_def nth_append)
    also have "\<dots> = Fin (A l / real ?T)"
      using rev[of l] that assms by (simp add: gA)
    finally show ?thesis .
  qed
  have "r ! (?L + l) = Fin (A l / real ?T) \<and> r ! (?L - l) = r ! (?L + l)" if "l \<le> ?L" for l
  proof (cases "l = 0")
    case True
    then show ?thesis using hi[of 0] by simp
  next
    case False
    then show ?thesis using hi[OF that] lo[of l] that by simp
  qed
  then show ?thesis using run lr unfolding A_def by blast
qed

text \<open>
  With the two names bound, \<^verbatim>\<open>axcov\<close> would return, for a trace of \<open>T\<close> samples and
  \<open>maxlag < T\<close>, a sequence of \<open>2*maxlag+1\<close> values, symmetric about its middle entry, whose
  middle entry is the sample variance of the trace: the sum of the squared deviations from
  the mean, over \<open>T\<close>.
\<close>

lemma axcov_bound_variance_symmetric:
  assumes "maxlag < length data"
  defines "mu \<equiv> sum_list data / real (length data)"
  shows "\<exists>r. axcov_bound (map (\<lambda>v. v - mu) data) (int maxlag) = Inr r \<and>
           length r = 2 * maxlag + 1 \<and>
           r ! maxlag = Fin ((\<Sum>t<length data. (data ! t - mu)\<^sup>2) / real (length data)) \<and>
           (\<forall>k\<le>maxlag. r ! (maxlag - k) = r ! (maxlag + k))"
proof -
  let ?d = "map (\<lambda>v. v - mu) data"
  have "maxlag < length ?d" using assms(1) by simp
  from axcov_bound_lags[OF this] obtain r where
    r: "axcov_bound ?d (int maxlag) = Inr r" "length r = 2 * maxlag + 1" and
    l: "\<forall>l\<le>maxlag. r ! (maxlag + l) =
          Fin ((\<Sum>t<length ?d - l. ?d ! t * ?d ! (t + l)) / real (length ?d)) \<and>
          r ! (maxlag - l) = r ! (maxlag + l)"
    by blast
  from l have "r ! (maxlag + 0) = Fin ((\<Sum>t<length ?d - 0. ?d ! t * ?d ! (t + 0)) / real (length ?d))"
    by blast
  moreover have "(\<Sum>t<length ?d - 0. ?d ! t * ?d ! (t + 0)) = (\<Sum>t<length data. (data ! t - mu)\<^sup>2)"
    by (intro sum.cong) (simp_all add: power2_eq_square)
  ultimately have "r ! maxlag = Fin ((\<Sum>t<length data. (data ! t - mu)\<^sup>2) / real (length data))"
    by simp
  with r l show ?thesis by blast
qed

end
